theory Spec2Isabelle
  imports Complex_Main "HOL-Library.Sublist"
begin

section \<open>Data model (types.ts)\<close>

text \<open>
  A JavaScript \<open>number\<close> is an IEEE 754 double. Here it is the real number that the
  double denotes; \<open>NaN\<close> and the infinities are not among the values. A field of the
  configuration holds the number as it is written (\<open>0.05\<close> is \<open>5/100\<close>); the generator
  reads it as the nearest double and rounds the result of every operation to a double
  (section Doubles). The samples and levels of the analyser are exact reals (square roots,
  logarithms).
\<close>

record AudioConfig =
  highpassFreq :: real
  lowpassFreq :: real
  deesserFreq :: real
  deesserAmount :: real
  noiseReduction :: real
  compressionAmount :: real
  loudnormTarget :: real
  loudnormTp :: real
  loudnormLra :: real
  bitrate :: real
  flacCompressionLevel :: real

record AudioAnalysis =
  estLufs :: real
  peak :: real
  noiseFloor :: real
  duration :: real
  sampleRate :: real
  isEst :: bool

definition DEFAULT_CONFIG :: AudioConfig where
  "DEFAULT_CONFIG = \<lparr>
     highpassFreq = 80,
     lowpassFreq = 12000,
     deesserFreq = 6000,
     deesserAmount = 1/2,
     noiseReduction = 2/10,
     compressionAmount = 3/10,
     loudnormTarget = -19,
     loudnormTp = -3,
     loudnormLra = 11,
     bitrate = 128,
     flacCompressionLevel = 6 \<rparr>"

text \<open>
  \<open>keyof AudioConfig\<close>, and \<open>Partial<AudioConfig>\<close> as the list of the properties an
  object literal gives, in the order it gives them.
\<close>

datatype config_key =
    HighpassFreq | LowpassFreq | DeesserFreq | DeesserAmount | NoiseReduction
  | CompressionAmount | LoudnormTarget | LoudnormTp | LoudnormLra | Bitrate
  | FlacCompressionLevel

type_synonym partial_config = "(config_key \<times> real) list"

fun get_key :: "config_key \<Rightarrow> AudioConfig \<Rightarrow> real" where
  "get_key HighpassFreq c = highpassFreq c"
| "get_key LowpassFreq c = lowpassFreq c"
| "get_key DeesserFreq c = deesserFreq c"
| "get_key DeesserAmount c = deesserAmount c"
| "get_key NoiseReduction c = noiseReduction c"
| "get_key CompressionAmount c = compressionAmount c"
| "get_key LoudnormTarget c = loudnormTarget c"
| "get_key LoudnormTp c = loudnormTp c"
| "get_key LoudnormLra c = loudnormLra c"
| "get_key Bitrate c = bitrate c"
| "get_key FlacCompressionLevel c = flacCompressionLevel c"

text \<open>\<open>updateConfig\<close>: \<open>{ ...prev, [key]: value }\<close>.\<close>

fun updateConfig :: "config_key \<Rightarrow> real \<Rightarrow> AudioConfig \<Rightarrow> AudioConfig" where
  "updateConfig HighpassFreq v c = c\<lparr>highpassFreq := v\<rparr>"
| "updateConfig LowpassFreq v c = c\<lparr>lowpassFreq := v\<rparr>"
| "updateConfig DeesserFreq v c = c\<lparr>deesserFreq := v\<rparr>"
| "updateConfig DeesserAmount v c = c\<lparr>deesserAmount := v\<rparr>"
| "updateConfig NoiseReduction v c = c\<lparr>noiseReduction := v\<rparr>"
| "updateConfig CompressionAmount v c = c\<lparr>compressionAmount := v\<rparr>"
| "updateConfig LoudnormTarget v c = c\<lparr>loudnormTarget := v\<rparr>"
| "updateConfig LoudnormTp v c = c\<lparr>loudnormTp := v\<rparr>"
| "updateConfig LoudnormLra v c = c\<lparr>loudnormLra := v\<rparr>"
| "updateConfig Bitrate v c = c\<lparr>bitrate := v\<rparr>"
| "updateConfig FlacCompressionLevel v c = c\<lparr>flacCompressionLevel := v\<rparr>"

text \<open>
  Object spread \<open>{ ...prev, ...partial }\<close>: every property of the partial object is
  written over the copy of \<open>prev\<close>, in order.
\<close>

definition spread :: "AudioConfig \<Rightarrow> partial_config \<Rightarrow> AudioConfig" where
  "spread prev partial = fold (\<lambda>(k, v). updateConfig k v) partial prev"

record AudioPreset =
  preset_id :: string
  preset_name :: string
  preset_description :: string
  preset_config :: partial_config

definition PRESETS :: "AudioPreset list" where
  "PRESETS = [
     \<lparr> preset_id = ''acx'', preset_name = ''ACX Standard'',
       preset_description = ''Meets Audible requirements (-19 LUFS, -3dB TP)'',
       preset_config = [(LoudnormTarget, -20), (LoudnormTp, -3), (HighpassFreq, 80),
                        (CompressionAmount, 3/10)] \<rparr>,
     \<lparr> preset_id = ''warm'', preset_name = ''Warm Narrator'',
       preset_description = ''Enhanced low-mids, gentle processing'',
       preset_config = [(HighpassFreq, 60), (LowpassFreq, 8000), (CompressionAmount, 2/10),
                        (LoudnormTarget, -20)] \<rparr>,
     \<lparr> preset_id = ''clear'', preset_name = ''Crystal Clear'',
       preset_description = ''Bright and articulate, good for non-fiction'',
       preset_config = [(HighpassFreq, 90), (LowpassFreq, 14000), (DeesserAmount, 7/10),
                        (CompressionAmount, 4/10)] \<rparr>,
     \<lparr> preset_id = ''home'', preset_name = ''Home Studio Fix'',
       preset_description = ''Heavier noise reduction for untreated rooms'',
       preset_config = [(NoiseReduction, 6/10), (HighpassFreq, 100),
                        (CompressionAmount, 5/10)] \<rparr>,
     \<lparr> preset_id = ''radio'', preset_name = ''Radio Ready'',
       preset_description = ''Compressed, punchy, loud'',
       preset_config = [(LoudnormTarget, -16), (LoudnormTp, -1), (CompressionAmount, 8/10),
                        (LowpassFreq, 10000)] \<rparr> ]"

text \<open>
  \<open>applyPreset\<close> (App.tsx), on the configuration state; the line it adds to the terminal
  log is not modelled. An unknown id leaves the configuration as it is.
\<close>

definition applyPreset :: "string \<Rightarrow> AudioConfig \<Rightarrow> AudioConfig" where
  "applyPreset presetId prev =
     (case find (\<lambda>p. preset_id p = presetId) PRESETS of
        Some preset \<Rightarrow> spread prev (preset_config preset)
      | None \<Rightarrow> prev)"

section \<open>Doubles\<close>

text \<open>
  Rounding to the nearest integer, a tie going to the even one; the exponent of the
  binade of \<open>x\<close>, not below that of the subnormal numbers; the distance between the
  doubles of that binade, the significand having 53 bits; and the double nearest to \<open>x\<close>.
  There is no largest double here: a result beyond \<open>1.8 * 10^308\<close>, which the engine
  turns into \<open>Infinity\<close>, stays finite.
\<close>

definition round_even :: "real \<Rightarrow> int" where
  "round_even y =
     (let f = \<lfloor>y\<rfloor>; r = y - of_int f
      in if r < 1/2 then f else if 1/2 < r then f + 1 else if even f then f else f + 1)"

definition exponent64 :: "real \<Rightarrow> int" where
  "exponent64 x = max (- 1022) \<lfloor>log 2 \<bar>x\<bar>\<rfloor>"

definition ulp64 :: "real \<Rightarrow> real" where
  "ulp64 x = 2 powr (of_int (exponent64 x) - 52)"

definition binary64 :: "real \<Rightarrow> real" where
  "binary64 x = (if x = 0 then 0 else of_int (round_even (x / ulp64 x)) * ulp64 x)"

section \<open>Parameter mapping (utils.ts, generateFFmpegCommand)\<close>

text \<open>\<open>Math.round\<close>: the nearest integer, a tie going up.\<close>

definition Math_round :: "real \<Rightarrow> int" where
  "Math_round x = \<lfloor>x + 1/2\<rfloor>"

definition nr :: "AudioConfig \<Rightarrow> int" where
  "nr config = Math_round (binary64 (binary64 (noiseReduction config) * 40))"

definition nf :: "AudioConfig \<Rightarrow> int" where
  "nf config =
     Math_round (binary64 (-80 + binary64 (binary64 (noiseReduction config) * 40)))"

text \<open>The four formulas of the compressor as they are written, on exact numbers.\<close>

definition ratio :: "AudioConfig \<Rightarrow> real" where
  "ratio config = 2 + (compressionAmount config * 3)"

definition attack :: "AudioConfig \<Rightarrow> real" where
  "attack config = 20 - (compressionAmount config * 18)"

definition release :: "AudioConfig \<Rightarrow> real" where
  "release config = 250 - (compressionAmount config * 200)"

definition makeup :: "AudioConfig \<Rightarrow> real" where
  "makeup config = 2 + (compressionAmount config * 2)"

text \<open>
  The same four as the engine computes them: the product rounded to a double, then the sum
  or difference rounded to a double. These are the numbers that \<open>toFixed\<close> writes.
\<close>

definition ratio64 :: "AudioConfig \<Rightarrow> real" where
  "ratio64 config = binary64 (2 + binary64 (binary64 (compressionAmount config) * 3))"

definition attack64 :: "AudioConfig \<Rightarrow> real" where
  "attack64 config = binary64 (20 - binary64 (binary64 (compressionAmount config) * 18))"

definition release64 :: "AudioConfig \<Rightarrow> real" where
  "release64 config = binary64 (250 - binary64 (binary64 (compressionAmount config) * 200))"

definition makeup64 :: "AudioConfig \<Rightarrow> real" where
  "makeup64 config = binary64 (2 + binary64 (binary64 (compressionAmount config) * 2))"

section \<open>Numbers as text\<close>

text \<open>
  The digits of a natural number, and an integer with its sign.
\<close>

function nat_digits :: "nat \<Rightarrow> string" where
  "nat_digits n =
     (if n < 10 then [''0123456789'' ! n]
      else nat_digits (n div 10) @ [''0123456789'' ! (n mod 10)])"
  by pat_completeness auto
termination
  by (relation "measure id") auto

declare nat_digits.simps [simp del]

definition int_string :: "int \<Rightarrow> string" where
  "int_string i = (if i < 0 then ''-'' @ nat_digits (nat (- i)) else nat_digits (nat i))"

text \<open>
  \<open>Number::toString\<close>, as a template literal applies it. An integer below \<open>10^21\<close> in
  magnitude is written with all its digits. For every other number the engine writes the
  shortest decimal that reads back as the same double, which depends on the binary
  representation; that part of the engine is the parameter \<open>ns\<close>.
\<close>

definition numberToString :: "(real \<Rightarrow> string) \<Rightarrow> real \<Rightarrow> string" where
  "numberToString ns x =
     (if x = of_int \<lfloor>x\<rfloor> \<and> \<bar>x\<bar> < 10 ^ 21 then int_string \<lfloor>x\<rfloor> else ns x)"

text \<open>
  \<open>Number.prototype.toFixed(f)\<close>: the sign, then the integer \<open>n\<close> nearest to
  \<open>x * 10^f\<close> (the larger one on a tie) written with at least \<open>f + 1\<close> digits and a
  point before the last \<open>f\<close>; from \<open>10^21\<close> on, \<open>Number::toString\<close>.
\<close>

definition toFixed :: "(real \<Rightarrow> string) \<Rightarrow> nat \<Rightarrow> real \<Rightarrow> string" where
  "toFixed ns f x0 =
     (let s = (if x0 < 0 then ''-'' else []);
          x = \<bar>x0\<bar>
      in s @
        (if x \<ge> 10 ^ 21 then numberToString ns x
         else
           let n = nat \<lfloor>x * 10 ^ f + 1/2\<rfloor>;
               m = nat_digits n
           in if f \<noteq> 0 then
                let m' = (if length m \<le> f then replicate (f + 1 - length m) (CHR ''0'') @ m
                          else m);
                    k = length m'
                in take (k - f) m' @ ''.'' @ drop (k - f) m'
              else m))"

section \<open>Filter stages (generateFFmpegCommand)\<close>

definition afftdn :: "(real \<Rightarrow> string) \<Rightarrow> AudioConfig \<Rightarrow> string" where
  "afftdn ns config =
     ''afftdn=nr='' @ numberToString ns (of_int (nr config)) @
     '':nf='' @ numberToString ns (of_int (nf config)) @ '':tn=1''"

definition compressor :: "(real \<Rightarrow> string) \<Rightarrow> AudioConfig \<Rightarrow> string" where
  "compressor ns config =
     ''acompressor=threshold=-20dB:ratio='' @ toFixed ns 1 (ratio64 config) @
     '':attack='' @ toFixed ns 1 (attack64 config) @
     '':release='' @ toFixed ns 0 (release64 config) @
     '':makeup='' @ toFixed ns 1 (makeup64 config)"

definition deesserFreqVal :: "(real \<Rightarrow> string) \<Rightarrow> AudioConfig \<Rightarrow> string" where
  "deesserFreqVal ns config = toFixed ns 3 (binary64 (binary64 (deesserFreq config) / 22050))"

definition deesser :: "(real \<Rightarrow> string) \<Rightarrow> AudioConfig \<Rightarrow> string" where
  "deesser ns config =
     ''deesser=i='' @ toFixed ns 2 (binary64 (deesserAmount config)) @
     '':m=0.5:f='' @ deesserFreqVal ns config @ '':s=o''"

definition limiter :: "(real \<Rightarrow> string) \<Rightarrow> AudioConfig \<Rightarrow> string" where
  "limiter ns config =
     ''alimiter=limit='' @ numberToString ns (binary64 (loudnormTp config)) @
     ''dB:attack=5:release=50''"

definition highpass :: "(real \<Rightarrow> string) \<Rightarrow> AudioConfig \<Rightarrow> string" where
  "highpass ns config =
     ''highpass=f='' @ numberToString ns (binary64 (highpassFreq config)) @ '':poles=2''"

definition lowpass :: "(real \<Rightarrow> string) \<Rightarrow> AudioConfig \<Rightarrow> string" where
  "lowpass ns config =
     ''lowpass=f='' @ numberToString ns (binary64 (lowpassFreq config)) @ '':poles=2''"

definition click :: string where
  "click = ''adeclick=w=55:o=75:t=25''"

section \<open>Paths and script text (utils.ts)\<close>

text \<open>\<open>a || b\<close> on strings: an absent or empty \<open>a\<close> gives \<open>b\<close>.\<close>

definition str_or :: "string option \<Rightarrow> string \<Rightarrow> string" where
  "str_or a b = (case a of None \<Rightarrow> b | Some s \<Rightarrow> if s = [] then b else s)"

definition resolveShellPath :: "string \<Rightarrow> string" where
  "resolveShellPath path =
     (if path = [] then path
      else if prefix ''~/'' path then ''$HOME/'' @ drop 2 path
      else path)"

text \<open>
  Characters of the template that a string literal here cannot hold, and the three
  pictographs of the echo lines as the bytes of their UTF-8 encoding.
\<close>

definition backslash :: string where
  "backslash = [CHR 0x5C]"

definition sq :: string where
  "sq = [CHR 0x27]"

definition nl :: string where
  "nl = [CHR 0x0A]"

definition headphone :: string where
  "headphone = [CHR 0xF0, CHR 0x9F, CHR 0x8E, CHR 0xA7]"

definition keyboard :: string where
  "keyboard = [CHR 0xF0, CHR 0x9F, CHR 0x8E, CHR 0xB9]"

definition check_mark :: string where
  "check_mark = [CHR 0xE2, CHR 0x9C, CHR 0x85]"

text \<open>A line of the template that ends in a backslash, continued on the next one.\<close>

definition cont :: string where
  "cont = backslash @ nl"

text \<open>
  The argument of \<open>-filter_complex\<close>, between its double quotes: full export, one stage
  a line; preview, the same stages on four lines.
\<close>

definition fullFilterGraph :: "(real \<Rightarrow> string) \<Rightarrow> AudioConfig \<Rightarrow> string" where
  "fullFilterGraph ns config =
     cont @
     ''[0:a]aformat=sample_fmts=fltp:sample_rates=44100:channel_layouts=stereo,'' @ cont @
     highpass ns config @ '','' @ cont @
     afftdn ns config @ '','' @ cont @
     lowpass ns config @ '','' @ cont @
     click @ '','' @ cont @
     deesser ns config @ '','' @ cont @
     compressor ns config @ '','' @ cont @
     ''loudnorm=I='' @ numberToString ns (binary64 (loudnormTarget config)) @
       '':TP='' @ numberToString ns (binary64 (loudnormTp config)) @
       '':LRA='' @ numberToString ns (binary64 (loudnormLra config)) @
       '':measured_I=$MEASURED_I:measured_TP=$MEASURED_TP:measured_LRA=$MEASURED_LRA'' @
       '':measured_thresh=$MEASURED_THRESH:offset=$OFFSET:linear=true:print_format=summary,'' @
       cont @
     limiter ns config @ '','' @ cont @
     ''aformat=channel_layouts=mono[out]''"

definition previewFilterGraph :: "(real \<Rightarrow> string) \<Rightarrow> AudioConfig \<Rightarrow> string" where
  "previewFilterGraph ns config =
     cont @
     ''[0:a]aformat=sample_fmts=fltp:sample_rates=44100:channel_layouts=stereo,'' @ cont @
     highpass ns config @ '','' @ afftdn ns config @ '','' @ lowpass ns config @ '','' @
     click @ '','' @ deesser ns config @ '','' @ compressor ns config @ '','' @ cont @
     ''loudnorm=I='' @ numberToString ns (binary64 (loudnormTarget config)) @
       '':TP='' @ numberToString ns (binary64 (loudnormTp config)) @
       '':LRA='' @ numberToString ns (binary64 (loudnormLra config)) @ '','' @ cont @
     limiter ns config @ '',aformat=channel_layouts=mono''"

text \<open>
  The template of the full export as its shell lines, a command that the template
  continues over several lines with backslashes being one entry.
\<close>

definition fullScript :: "(real \<Rightarrow> string) \<Rightarrow> AudioConfig \<Rightarrow> string \<Rightarrow> string \<Rightarrow> string list" where
  \<open>fullScript ns config safeInput safeOutput = [
     ''#!/bin/bash'',
     ''# VOICE ENHANCEMENT STUDIO - AUDIOBOOK MASTERING SCRIPT (FLAC Workflow)'',
     [],
     ''INPUT="'' @ safeInput @ ''"'',
     ''OUTPUT="'' @ safeOutput @ ''"'',
     ''TEMP_FLAC="/tmp/temp_analysis_$(date +%s).flac"'',
     [],
     ''echo ">> '' @ headphone @ '' PHASE 1: ANALYSIS & MEASUREMENT"'',
     ''# Extract to temporary FLAC (Lossless, Compressed Level '' @
       numberToString ns (binary64 (flacCompressionLevel config)) @ '')'',
     ''# -map_metadata 0 preserves chapters and tags from source'',
     ''# -nostdin prevents ffmpeg from consuming the rest of this script as input'',
     ''echo "   ...extracting to intermediate FLAC..."'',
     ''ffmpeg -nostdin -v warning -i "$INPUT" -vn -acodec flac -compression_level '' @
       numberToString ns (binary64 (flacCompressionLevel config)) @
       '' -ar 44100 -map_metadata 0 "$TEMP_FLAC" -y'',
     [],
     ''# Analyze loudness and noise floor from FLAC'',
     ''echo "   ...measuring dynamics and spectrum..."'',
     ''LOUDNESS_DATA=$(ffmpeg -nostdin -i "$TEMP_FLAC" -af loudnorm=I='' @
       numberToString ns (binary64 (loudnormTarget config)) @
       '':TP='' @ numberToString ns (binary64 (loudnormTp config)) @
       '':LRA='' @ numberToString ns (binary64 (loudnormLra config)) @
       '':print_format=json -f null - 2>&1 | grep -A 12 "loudnorm" | tail -n 12)'',
     [],
     ''# Extract measured values'',
     ''# Uses escaped newline for tr to prevent multiline syntax errors in bash'',
     ''MEASURED_I=$(echo "$LOUDNESS_DATA" | grep '' @ sq @ ''"input_i"'' @ sq @
       '' | cut -d : -f 2 | tr -d '' @ sq @ ''", '' @ backslash @ ''n'' @ sq @ '')'',
     ''MEASURED_TP=$(echo "$LOUDNESS_DATA" | grep '' @ sq @ ''"input_tp"'' @ sq @
       '' | cut -d : -f 2 | tr -d '' @ sq @ ''", '' @ backslash @ ''n'' @ sq @ '')'',
     ''MEASURED_LRA=$(echo "$LOUDNESS_DATA" | grep '' @ sq @ ''"input_lra"'' @ sq @
       '' | cut -d : -f 2 | tr -d '' @ sq @ ''", '' @ backslash @ ''n'' @ sq @ '')'',
     ''MEASURED_THRESH=$(echo "$LOUDNESS_DATA" | grep '' @ sq @ ''"input_thresh"'' @ sq @
       '' | cut -d : -f 2 | tr -d '' @ sq @ ''", '' @ backslash @ ''n'' @ sq @ '')'',
     ''OFFSET=$(echo "$LOUDNESS_DATA" | grep '' @ sq @ ''"target_offset"'' @ sq @
       '' | cut -d : -f 2 | tr -d '' @ sq @ ''", '' @ backslash @ ''n'' @ sq @ '')'',
     [],
     ''echo "   ...Captured: I=$MEASURED_I TP=$MEASURED_TP LRA=$MEASURED_LRA"'',
     [],
     ''# Fallback values in case analysis failed (prevents syntax errors in next step)'',
     '': ${MEASURED_I:='' @ numberToString ns (binary64 (loudnormTarget config)) @ ''}'',
     '': ${MEASURED_TP:='' @ numberToString ns (binary64 (loudnormTp config)) @ ''}'',
     '': ${MEASURED_LRA:='' @ numberToString ns (binary64 (loudnormLra config)) @ ''}'',
     '': ${MEASURED_THRESH:=-70.0}'',
     '': ${OFFSET:=0.0}'',
     [],
     ''echo ">> '' @ keyboard @ '' PHASE 2: PRECISION PROCESSING"'',
     ''# Process from the intermediate FLAC'',
     ''# Map metadata from it to ensure chapters are preserved'',
     ''ffmpeg -nostdin -i "$TEMP_FLAC" -filter_complex "'' @ fullFilterGraph ns config @
       ''" '' @ cont @
       ''-map "[out]" '' @ cont @
       ''-vn -map_metadata 0 '' @ cont @
       ''-c:a aac -b:a '' @ numberToString ns (binary64 (bitrate config)) @
       ''k -movflags +faststart '' @ cont @
       ''"$OUTPUT"'',
     [],
     ''# Cleanup'',
     ''rm "$TEMP_FLAC"'',
     ''echo ">> '' @ check_mark @ '' PROCESSING COMPLETE: $OUTPUT"'' ]\<close>

definition previewCommand ::
  "(real \<Rightarrow> string) \<Rightarrow> AudioConfig \<Rightarrow> string \<Rightarrow> real \<Rightarrow> string \<Rightarrow> string" where
  \<open>previewCommand ns config safeInput duration' safeOutput =
     ''ffmpeg -nostdin -ss 00:05:00 -i "'' @ safeInput @ ''" -t '' @
       numberToString ns duration' @ '' '' @ cont @
     ''-filter_complex "'' @ previewFilterGraph ns config @ ''" '' @ cont @
     ''-vn -c:a aac -b:a '' @ numberToString ns (binary64 (bitrate config)) @ ''k "'' @
       safeOutput @ ''"''\<close>

text \<open>
  The type of \<open>mode\<close>, \<open>'test-45s' | 'test-10s' | 'full'\<close>, and
  \<open>generateFFmpegCommand\<close>.
\<close>

datatype Mode = Test45s | Test10s | Full

definition generateFFmpegCommand ::
  "(real \<Rightarrow> string) \<Rightarrow> AudioConfig \<Rightarrow> string \<Rightarrow> Mode \<Rightarrow> string option \<Rightarrow> string" where
  "generateFFmpegCommand ns config inputPath mode outputFilePath =
     (let inputFile = str_or (Some inputPath) ''input.m4b'';
          safeInput = resolveShellPath inputFile
      in if mode = Full then
           let safeOutput = resolveShellPath (str_or outputFilePath ''processed_audiobook.m4b'')
           in concat (map (\<lambda>l. l @ nl) (fullScript ns config safeInput safeOutput))
         else
           let duration' = (if mode = Test45s then 45 else 10);
               suffix = (if mode = Test45s then ''-preview-45s.m4b'' else ''-preview-10s.m4b'');
               outputName = str_or outputFilePath (''preview'' @ suffix);
               safeOutput = resolveShellPath outputName
           in previewCommand ns config safeInput duration' safeOutput)"

section \<open>Reading a generated script\<close>

text \<open>
  A filter graph as ffmpeg reads it here: the line continuations are dropped and the stages
  are the parts between commas. A stage may begin with a link label \<open>[...]\<close>; after it
  comes the name of the filter, an \<open>=\<close> and the options. The kind of a stage is told by
  its filter, the two uses of \<open>aformat\<close> by their first option: the one that sets the
  sample format normalises the format, the one that sets the channel layout to mono
  collapses the channels.
\<close>

fun splitOn :: "'a \<Rightarrow> 'a list \<Rightarrow> 'a list list" where
  "splitOn c [] = [[]]"
| "splitOn c (x # xs) =
     (if x = c then [] # splitOn c xs
      else (case splitOn c xs of [] \<Rightarrow> [[x]] | y # ys \<Rightarrow> (x # y) # ys))"

definition joinLines :: "string \<Rightarrow> string" where
  "joinLines g = filter (\<lambda>c. c \<noteq> CHR 0x5C \<and> c \<noteq> CHR 0x0A) g"

definition graphStages :: "string \<Rightarrow> string list" where
  "graphStages g = splitOn (CHR '','') (joinLines g)"

definition stageBody :: "string \<Rightarrow> string" where
  "stageBody s = (if prefix ''['' s then drop 1 (dropWhile (\<lambda>c. c \<noteq> CHR '']'') s) else s)"

definition stageName :: "string \<Rightarrow> string" where
  "stageName s = takeWhile (\<lambda>c. c \<noteq> CHR ''='') (stageBody s)"

datatype stage =
    FormatNormalization | Highpass | NoiseRemoval | Lowpass | ClickRemoval | DeEsser
  | Compressor | LoudnessNormalization | Limiter | MonoCollapse

definition stageKind :: "string \<Rightarrow> stage option" where
  "stageKind s =
     (let b = stageBody s
      in if prefix ''aformat=sample_fmts='' b then Some FormatNormalization
         else if prefix ''highpass='' b then Some Highpass
         else if prefix ''afftdn='' b then Some NoiseRemoval
         else if prefix ''lowpass='' b then Some Lowpass
         else if prefix ''adeclick='' b then Some ClickRemoval
         else if prefix ''deesser='' b then Some DeEsser
         else if prefix ''acompressor='' b then Some Compressor
         else if prefix ''loudnorm='' b then Some LoudnessNormalization
         else if prefix ''alimiter='' b then Some Limiter
         else if prefix ''aformat=channel_layouts=mono'' b then Some MonoCollapse
         else None)"

definition filterGraph :: "(real \<Rightarrow> string) \<Rightarrow> AudioConfig \<Rightarrow> Mode \<Rightarrow> string" where
  "filterGraph ns config mode =
     (if mode = Full then fullFilterGraph ns config else previewFilterGraph ns config)"

text \<open>The engine writes no number with a comma, a backslash or a line break in it.\<close>

definition plain :: "(real \<Rightarrow> string) \<Rightarrow> bool" where
  "plain ns =
     (\<forall>x. CHR '','' \<notin> set (ns x) \<and> CHR 0x5C \<notin> set (ns x) \<and> CHR 0x0A \<notin> set (ns x))"

text \<open>
  The steps of a full-export script, by the way their lines begin: a phase announcement,
  the extraction of the input to the intermediate FLAC, the loudnorm run that measures the
  intermediate FLAC, the capture of a measured value from the report of that run, a
  fallback assignment, the loudnorm run that processes the intermediate FLAC, the removal
  of the intermediate FLAC. A comment is no step.
\<close>

datatype step = Phase | Extract | MeasurePass | Capture | Fallback | ProcessPass | Cleanup

definition classify :: "string \<Rightarrow> step option" where
  \<open>classify l =
     (if prefix ''#'' l then None
      else if prefix (''echo ">> '' @ headphone @ '' PHASE '') l
        \<or> prefix (''echo ">> '' @ keyboard @ '' PHASE '') l then Some Phase
      else if prefix ''ffmpeg -nostdin -v warning -i "$INPUT" -vn -acodec flac '' l
        then Some Extract
      else if prefix ''LOUDNESS_DATA=$(ffmpeg -nostdin -i "$TEMP_FLAC" -af loudnorm='' l
        then Some MeasurePass
      else if prefix '': ${'' l then Some Fallback
      else if prefix ''ffmpeg -nostdin -i "$TEMP_FLAC" -filter_complex '' l then Some ProcessPass
      else if l = ''rm "$TEMP_FLAC"'' then Some Cleanup
      else if prefix ''=$(echo "$LOUDNESS_DATA" | grep ''
                (dropWhile (\<lambda>c. c \<noteq> CHR ''='') l) then Some Capture
      else None)\<close>

definition steps :: "string list \<Rightarrow> step list" where
  "steps script = List.map_filter classify script"

text \<open>
  A fallback assignment \<open>: ${VAR:=literal}\<close>, by which the shell gives \<open>VAR\<close> the
  literal when it is unset or empty: the variable and the literal. A capture
  \<open>VAR=$(echo "$LOUDNESS_DATA" | grep '"key"' ...)\<close>: the variable and the key of the
  report.
\<close>

definition fallbackOf :: "string \<Rightarrow> (string \<times> string) option" where
  "fallbackOf l =
     (if prefix '': ${'' l \<and> last l = CHR ''}'' then
        let body = butlast (drop 4 l);
            var = takeWhile (\<lambda>c. c \<noteq> CHR '':'') body;
            rest = drop (length var) body
        in if prefix '':='' rest then Some (var, drop 2 rest) else None
      else None)"

definition captureOf :: "string \<Rightarrow> (string \<times> string) option" where
  "captureOf l =
     (if classify l = Some Capture then
        Some (takeWhile (\<lambda>c. c \<noteq> CHR ''='') l,
              takeWhile (\<lambda>c. c \<noteq> CHR 0x22)
                (drop 34 (dropWhile (\<lambda>c. c \<noteq> CHR ''='') l)))
      else None)"

section \<open>Reading a written number\<close>

text \<open>
  A decimal numeral with \<open>f\<close> decimal places: an optional minus sign, at least one digit
  and, when \<open>f > 0\<close>, a point and exactly \<open>f\<close> digits; and the number it denotes.
\<close>

definition is_digit :: "char \<Rightarrow> bool" where
  "is_digit c = (c \<in> set ''0123456789'')"

definition digit_value :: "char \<Rightarrow> nat" where
  "digit_value c = length (takeWhile (\<lambda>d. d \<noteq> c) ''0123456789'')"

definition digits_value :: "string \<Rightarrow> nat" where
  "digits_value ds = foldl (\<lambda>a c. 10 * a + digit_value c) 0 ds"

definition unsigned :: "string \<Rightarrow> string" where
  "unsigned s = (if prefix ''-'' s then drop 1 s else s)"

definition intPart :: "string \<Rightarrow> string" where
  "intPart s = takeWhile (\<lambda>c. c \<noteq> CHR ''.'') (unsigned s)"

definition fracPart :: "string \<Rightarrow> string" where
  "fracPart s = drop 1 (dropWhile (\<lambda>c. c \<noteq> CHR ''.'') (unsigned s))"

definition isFixed :: "nat \<Rightarrow> string \<Rightarrow> bool" where
  "isFixed f s =
     (intPart s \<noteq> [] \<and> list_all is_digit (intPart s) \<and>
      list_all is_digit (fracPart s) \<and> length (fracPart s) = f \<and>
      unsigned s = intPart s @ (if f = 0 then [] else ''.'') @ fracPart s)"

definition fixedValue :: "string \<Rightarrow> real" where
  "fixedValue s =
     (if prefix ''-'' s then - 1 else 1) *
     real (digits_value (intPart s @ fracPart s)) / 10 ^ length (fracPart s)"

text \<open>The text \<open>s\<close> is the number \<open>x\<close> rounded to \<open>f\<close> decimal places.\<close>

definition roundedTo :: "nat \<Rightarrow> real \<Rightarrow> string \<Rightarrow> bool" where
  "roundedTo f x s = (isFixed f s \<and> \<bar>fixedValue s - x\<bar> \<le> 1 / (2 * 10 ^ f))"

section \<open>Signal analysis (App.tsx, runClientAnalysis)\<close>

text \<open>
  The part of \<open>runClientAnalysis\<close> that works on the decoded samples. A value that may be
  \<open>NaN\<close> or \<open>undefined\<close> is an option, \<open>None\<close> standing for both; \<open>a || b\<close> gives
  \<open>b\<close> when \<open>a\<close> is \<open>NaN\<close>, \<open>undefined\<close> or zero.
\<close>

definition windowSize :: nat where
  "windowSize = 4096"

definition CHUNK_SIZE :: nat where
  "CHUNK_SIZE = 50 * 1024 * 1024"

definition num_or :: "real option \<Rightarrow> real \<Rightarrow> real" where
  "num_or a b = (case a of None \<Rightarrow> b | Some v \<Rightarrow> if v = 0 then b else v)"

text \<open>
  The inner loop over \<open>j\<close>, on the running peak, the sum of squares of the window, the
  sum of squares of the buffer and the number of samples of the window.
\<close>

function window_loop ::
  "real list \<Rightarrow> nat \<Rightarrow> nat \<Rightarrow> real \<times> real \<times> real \<times> nat \<Rightarrow> real \<times> real \<times> real \<times> nat" where
  "window_loop rawData i j (pk, windowSum, sumSq, count) =
     (if j < windowSize \<and> i + j < length rawData then
        let v = rawData ! (i + j);
            a = \<bar>v\<bar>
        in window_loop rawData i (j + 1)
             (if a > pk then a else pk, windowSum + v * v, sumSq + v * v, count + 1)
      else (pk, windowSum, sumSq, count))"
  by pat_completeness auto
termination
  by (relation "measure (\<lambda>(rawData, i, j, s). length rawData - (i + j))") auto

declare window_loop.simps [simp del]

text \<open>The state of the outer loop: \<open>sumSquares\<close>, \<open>peak\<close> (here \<open>peakAmp\<close>) and \<open>rmsWindows\<close>.\<close>

record scan =
  sumSquares :: real
  peakAmp :: real
  rmsWindows :: "real list"

function scan_loop :: "real list \<Rightarrow> nat \<Rightarrow> scan \<Rightarrow> scan" where
  "scan_loop rawData i st =
     (if i < length rawData then
        (case window_loop rawData i 0 (peakAmp st, 0, sumSquares st, 0) of
           (pk, windowSum, sumSq, count) \<Rightarrow>
             scan_loop rawData (i + windowSize)
               \<lparr> sumSquares = sumSq, peakAmp = pk,
                 rmsWindows = (if count > 0
                               then rmsWindows st @ [sqrt (windowSum / real count)]
                               else rmsWindows st) \<rparr>)
      else st)"
  by pat_completeness auto
termination
  by (relation "measure (\<lambda>(rawData, i, st). length rawData - i)") (auto simp: windowSize_def)

declare scan_loop.simps [simp del]

text \<open>
  \<open>parseFloat(x.toFixed(1))\<close>: the number that \<open>toFixed(1)\<close> writes; from \<open>10^21\<close> on
  \<open>toFixed\<close> writes the number itself.
\<close>

definition toFixed1 :: "real \<Rightarrow> real" where
  "toFixed1 x =
     (if \<bar>x\<bar> \<ge> 10 ^ 21 then x
      else (if x < 0 then - 1 else 1) * real (nat \<lfloor>\<bar>x\<bar> * 10 ^ 1 + 1/2\<rfloor>) / 10 ^ 1)"

text \<open>
  \<open>runClientAnalysis\<close> from its step 4 on, the analysis of the decoded channel
  \<open>rawData\<close>; \<open>dur\<close> and \<open>rate\<close> are \<open>audioBuffer.duration\<close> and
  \<open>audioBuffer.sampleRate\<close>, \<open>fileSize\<close> the size of the source file. The audio context,
  the decoding and the log lines before it are not modelled.
\<close>

definition runClientAnalysis :: "real list \<Rightarrow> real \<Rightarrow> real \<Rightarrow> nat \<Rightarrow> AudioAnalysis" where
  "runClientAnalysis rawData dur rate fileSize =
     (let st = scan_loop rawData 0 \<lparr> sumSquares = 0, peakAmp = 0, rmsWindows = [] \<rparr>;
          rms = (if length rawData = 0 then None
                 else Some (sqrt (sumSquares st / real (length rawData))));
          dbRMS = 20 * log 10 (num_or rms 0.00000001);
          dbPeak = 20 * log 10 (num_or (Some (peakAmp st)) 0.00000001);
          sorted = sort (rmsWindows st);
          idx = nat \<lfloor>real (length sorted) * 0.1\<rfloor>;
          noiseRms = num_or (if idx < length sorted then Some (sorted ! idx) else None) 0.0000001;
          dbNoise = 20 * log 10 noiseRms
      in \<lparr> estLufs = toFixed1 dbRMS,
           peak = toFixed1 dbPeak,
           noiseFloor = toFixed1 dbNoise,
           duration = dur,
           sampleRate = rate,
           isEst = (fileSize > CHUNK_SIZE) \<rparr>)"





text \<open>
  The same quantities said without loops: the buffer cut into windows of \<open>n\<close> samples, the
  last one shorter when the length is no multiple of \<open>n\<close>; the root mean square of a window
  over its own length; the largest absolute value, starting from \<open>p\<close>.
\<close>

function windows :: "nat \<Rightarrow> 'a list \<Rightarrow> 'a list list" where
  "windows n xs = (if xs = [] \<or> n = 0 then [] else take n xs # windows n (drop n xs))"
  by pat_completeness auto
termination
  by (relation "measure (\<lambda>(n, xs). length xs)") auto

declare windows.simps [simp del]

definition sumsq :: "real list \<Rightarrow> real" where
  "sumsq xs = sum_list (map (\<lambda>x. x * x) xs)"

definition windowRms :: "real list \<Rightarrow> real" where
  "windowRms w = sqrt (sumsq w / real (length w))"

definition maxAbs :: "real list \<Rightarrow> real \<Rightarrow> real" where
  "maxAbs xs p = fold (\<lambda>v p. if \<bar>v\<bar> > p then \<bar>v\<bar> else p) xs p"

text \<open>
  The noise floor as the specification words it: \<open>20 log10\<close> of the element at index
  \<open>floor(0.1 * windowCount)\<close> of the window RMS values in ascending order.
\<close>

definition percentileRms :: "real list \<Rightarrow> real" where
  "percentileRms rawData =
     sort (map windowRms (windows windowSize rawData))
       ! nat \<lfloor>0.1 * real (length (windows windowSize rawData))\<rfloor>"

definition spec_noiseFloor :: "real list \<Rightarrow> real" where
  "spec_noiseFloor rawData = 20 * log 10 (percentileRms rawData)"

section \<open>Presets\<close>

lemma get_key_updateConfig:
  "get_key k (updateConfig k' v c) = (if k = k' then v else get_key k c)"
  by (cases k; cases k'; simp)

lemma get_key_spread_other:
  "k \<notin> fst ` set ps \<Longrightarrow> get_key k (spread prev ps) = get_key k prev"
  unfolding spread_def
proof (induction ps arbitrary: prev)
  case Nil
  then show ?case by simp
next
  case (Cons a ps)
  obtain k' v where a: "a = (k', v)" by (cases a)
  from Cons.prems have "k \<noteq> k'" and "k \<notin> fst ` set ps" by (auto simp: a)
  then show ?case using Cons.IH [of "updateConfig k' v prev"]
    by (simp add: a get_key_updateConfig)
qed

lemma find_PRESETS:
  "p \<in> set PRESETS \<Longrightarrow> find (\<lambda>q. preset_id q = preset_id p) PRESETS = Some p"
  unfolding PRESETS_def
  apply (simp only: list.set insert_iff empty_iff)
  apply (elim disjE FalseE)
  apply simp_all
  done

text \<open>
  C10. There are five presets, and applying any of them to any configuration leaves every
  field that its partial configuration does not list at the value it had.
\<close>

theorem applyPreset_keeps_unlisted:
  "length PRESETS = 5 \<and>
   (\<forall>p \<in> set PRESETS. \<forall>k. k \<notin> fst ` set (preset_config p) \<longrightarrow>
      get_key k (applyPreset (preset_id p) cfg) = get_key k cfg)"
proof (intro conjI ballI allI impI)
  show "length PRESETS = 5" by (simp add: PRESETS_def)
next
  fix p k
  assume "p \<in> set PRESETS" and "k \<notin> fst ` set (preset_config p)"
  then show "get_key k (applyPreset (preset_id p) cfg) = get_key k cfg"
    by (simp add: applyPreset_def find_PRESETS get_key_spread_other)
qed

theorem applyPreset_keeps_unlisted_witness:
  "PRESETS ! 3 \<in> set PRESETS \<and> preset_id (PRESETS ! 3) = ''home'' \<and>
   LowpassFreq \<notin> fst ` set (preset_config (PRESETS ! 3)) \<and>
   lowpassFreq (applyPreset ''home'' DEFAULT_CONFIG) = 12000 \<and>
   noiseReduction (applyPreset ''home'' DEFAULT_CONFIG) = 6/10"
proof -
  have m: "PRESETS ! 3 \<in> set PRESETS" by (simp add: PRESETS_def)
  have i: "preset_id (PRESETS ! 3) = ''home''" by (simp add: PRESETS_def)
  have u: "LowpassFreq \<notin> fst ` set (preset_config (PRESETS ! 3))" by (simp add: PRESETS_def)
  from applyPreset_keeps_unlisted [of DEFAULT_CONFIG] m u
  have "get_key LowpassFreq (applyPreset (preset_id (PRESETS ! 3)) DEFAULT_CONFIG)
        = get_key LowpassFreq DEFAULT_CONFIG" by blast
  then have l: "lowpassFreq (applyPreset ''home'' DEFAULT_CONFIG) = 12000"
    by (simp add: i DEFAULT_CONFIG_def)
  have n: "noiseReduction (applyPreset ''home'' DEFAULT_CONFIG) = 6/10"
    by (simp add: applyPreset_def PRESETS_def spread_def DEFAULT_CONFIG_def)
  from m i u l n show ?thesis by blast
qed

section \<open>Rounding to a double\<close>

lemma round_even_cases: "round_even y = \<lfloor>y\<rfloor> \<or> round_even y = \<lfloor>y\<rfloor> + 1"
  by (simp add: round_even_def Let_def)

lemma round_even_close: "\<bar>of_int (round_even y) - y\<bar> \<le> 1/2"
proof -
  have "of_int \<lfloor>y\<rfloor> \<le> y" "y < of_int \<lfloor>y\<rfloor> + 1" by linarith+
  then show ?thesis
    by (auto simp: round_even_def Let_def)
qed

lemma round_even_of_int [simp]: "round_even (of_int n) = n"
  by (simp add: round_even_def)

lemma round_even_mono:
  assumes "a \<le> b"
  shows "round_even a \<le> round_even b"
proof (cases "\<lfloor>a\<rfloor> < \<lfloor>b\<rfloor>")
  case True
  have "round_even a \<le> \<lfloor>a\<rfloor> + 1" using round_even_cases [of a] by auto
  also have "\<dots> \<le> \<lfloor>b\<rfloor>" using True by simp
  also have "\<dots> \<le> round_even b" using round_even_cases [of b] by auto
  finally show ?thesis .
next
  case False
  moreover have "\<lfloor>a\<rfloor> \<le> \<lfloor>b\<rfloor>" using assms by (rule floor_mono)
  ultimately have e: "\<lfloor>a\<rfloor> = \<lfloor>b\<rfloor>" by simp
  show ?thesis
    using assms by (auto simp: round_even_def Let_def e)
qed

lemma ulp64_pos [simp]: "0 < ulp64 x" "0 \<le> ulp64 x" "ulp64 x \<noteq> 0"
  by (simp_all add: ulp64_def)

lemma binade:
  assumes "x \<noteq> 0"
  shows "(2::real) powr of_int \<lfloor>log 2 \<bar>x\<bar>\<rfloor> \<le> \<bar>x\<bar>" and "\<bar>x\<bar> < 2 powr (of_int \<lfloor>log 2 \<bar>x\<bar>\<rfloor> + 1)"
proof -
  have p: "0 < \<bar>x\<bar>" using assms by simp
  have "\<lfloor>log 2 \<bar>x\<bar>\<rfloor> = \<lfloor>log 2 \<bar>x\<bar>\<rfloor>" ..
  then have "(2::real) powr of_int \<lfloor>log 2 \<bar>x\<bar>\<rfloor> \<le> \<bar>x\<bar> \<and> \<bar>x\<bar> < 2 powr (of_int \<lfloor>log 2 \<bar>x\<bar>\<rfloor> + 1)"
    by (subst (asm) floor_log_eq_powr_iff [OF p]) simp_all
  then show "(2::real) powr of_int \<lfloor>log 2 \<bar>x\<bar>\<rfloor> \<le> \<bar>x\<bar>" and "\<bar>x\<bar> < 2 powr (of_int \<lfloor>log 2 \<bar>x\<bar>\<rfloor> + 1)"
    by simp_all
qed

lemma exponent64_eq:
  assumes "(2::real) powr of_int e \<le> \<bar>x\<bar>" and "\<bar>x\<bar> < 2 powr (of_int e + 1)" and "- 1022 \<le> e"
  shows "exponent64 x = e"
proof -
  have "0 < 2 powr real_of_int e" by simp
  with assms(1) have p: "0 < \<bar>x\<bar>" by linarith
  have "\<lfloor>log 2 \<bar>x\<bar>\<rfloor> = e"
    by (subst floor_log_eq_powr_iff [OF p]) (use assms in simp_all)
  with assms(3) show ?thesis by (simp add: exponent64_def)
qed

text \<open>Evaluation at a number whose binade is known.\<close>

lemma binary64_at:
  assumes "(2::real) powr of_int e \<le> \<bar>x\<bar>" and "\<bar>x\<bar> < 2 powr (of_int e + 1)" and "- 1022 \<le> e"
    and "q = 2 powr (of_int e - 52)"
  shows "binary64 x = of_int (round_even (x / q)) * q"
proof -
  have "0 < 2 powr real_of_int e" by simp
  with assms(1) have "x \<noteq> 0" by auto
  then show ?thesis
    by (simp add: binary64_def ulp64_def exponent64_eq [OF assms(1-3)] assms(4))
qed

lemma binary64_0 [simp]: "binary64 0 = 0"
  by (simp add: binary64_def)

lemma binary64_exact:
  assumes "x / ulp64 x = of_int n"
  shows "binary64 x = x"
proof (cases "x = 0")
  case True
  then show ?thesis by simp
next
  case False
  have "binary64 x = of_int n * ulp64 x"
    using False by (simp add: binary64_def assms)
  also have "\<dots> = x" using assms [symmetric] by simp
  finally show ?thesis .
qed

lemma binary64_error_ulp: "\<bar>binary64 x - x\<bar> \<le> ulp64 x / 2"
proof (cases "x = 0")
  case True
  then show ?thesis by simp
next
  case False
  define q where "q = ulp64 x"
  have q: "0 < q" by (simp add: q_def)
  have "binary64 x - x = (of_int (round_even (x / q)) - x / q) * q"
    using False q by (simp add: binary64_def q_def algebra_simps)
  then have "\<bar>binary64 x - x\<bar> = \<bar>of_int (round_even (x / q)) - x / q\<bar> * q"
    using q by (simp add: abs_mult)
  also have "\<dots> \<le> (1/2) * q"
    using round_even_close [of "x / q"] q by (intro mult_right_mono) simp_all
  finally show ?thesis by (simp add: q_def)
qed


lemma exponent64_less:
  assumes "x \<noteq> 0" and "\<bar>x\<bar> < 2 powr of_int k" and "- 1021 \<le> k"
  shows "exponent64 x \<le> k - 1"
proof -
  have "(2::real) powr of_int \<lfloor>log 2 \<bar>x\<bar>\<rfloor> < (2::real) powr of_int k"
    using binade(1) [OF assms(1)] assms(2) by linarith
  then have "\<lfloor>log 2 \<bar>x\<bar>\<rfloor> < k" by simp
  with assms(3) show ?thesis by (simp add: exponent64_def)
qed

lemma pow2_exact:
  assumes "\<bar>x\<bar> = 2 powr of_int k" and "- 1022 \<le> k"
  shows "binary64 x = x"
proof -
  have e: "exponent64 x = k"
    by (rule exponent64_eq) (simp_all add: assms)
  have "\<bar>x\<bar> / ulp64 x = 2 powr 52"
    by (simp add: ulp64_def e assms(1) powr_diff)
  then have a: "\<bar>x\<bar> / ulp64 x = of_int (2 ^ 52)" by simp
  show ?thesis
  proof (cases "0 \<le> x")
    case True
    with a show ?thesis by (intro binary64_exact [of _ "2 ^ 52"]) simp
  next
    case False
    with a have "x / ulp64 x = of_int (- (2 ^ 52))" by simp
    then show ?thesis by (rule binary64_exact)
  qed
qed

text \<open>The rounding error below a power of two.\<close>

lemma binary64_error:
  assumes "\<bar>x\<bar> \<le> 2 powr of_int k" and "- 1021 \<le> k"
  shows "\<bar>binary64 x - x\<bar> \<le> 2 powr (of_int k - 54)"
proof -
  consider "x = 0" | "\<bar>x\<bar> = 2 powr of_int k" | "x \<noteq> 0" "\<bar>x\<bar> < (2::real) powr of_int k"
    using assms(1) by fastforce
  then show ?thesis
  proof cases
    case 1
    then show ?thesis by simp
  next
    case 2
    then have "binary64 x = x" using assms(2) by (intro pow2_exact [of _ k]) simp_all
    then show ?thesis by simp
  next
    case 3
    have "exponent64 x \<le> k - 1" using 3 assms(2) by (rule exponent64_less)
    then have "real_of_int (exponent64 x) - 52 \<le> real_of_int k - 53" by linarith
    then have "ulp64 x \<le> 2 powr (of_int k - 53)"
      unfolding ulp64_def by (intro powr_mono) simp_all
    moreover have "(2::real) powr (real_of_int k - 53) / 2 = 2 powr (of_int k - 54)"
    proof -
      have "(2::real) powr (real_of_int k - 54) = 2 powr (real_of_int k - 53 - 1)" by simp
      also have "\<dots> = 2 powr (real_of_int k - 53) / 2 powr 1" by (rule powr_diff)
      finally show ?thesis by simp
    qed
    ultimately show ?thesis using binary64_error_ulp [of x] by linarith
  qed
qed

lemma binary64_nonneg: "0 \<le> x \<Longrightarrow> 0 \<le> binary64 x"
proof -
  assume "0 \<le> x"
  then have "0 \<le> x / ulp64 x" by simp
  then have "round_even 0 \<le> round_even (x / ulp64 x)" by (rule round_even_mono)
  then have "0 \<le> round_even (x / ulp64 x)" using round_even_of_int [of 0] by simp
  then show ?thesis by (simp add: binary64_def)
qed

lemma exponent64_mono: "0 < x \<Longrightarrow> x \<le> y \<Longrightarrow> exponent64 x \<le> exponent64 y"
proof -
  assume "0 < x" and "x \<le> y"
  then have "log 2 \<bar>x\<bar> \<le> log 2 \<bar>y\<bar>" by simp
  then have "\<lfloor>log 2 \<bar>x\<bar>\<rfloor> \<le> \<lfloor>log 2 \<bar>y\<bar>\<rfloor>" by (rule floor_mono)
  then show ?thesis by (simp add: exponent64_def)
qed

lemma binary64_upper:
  assumes "0 < x"
  shows "binary64 x \<le> 2 powr (of_int (exponent64 x) + 1)"
proof -
  define e where "e = exponent64 x"
  have x0: "x \<noteq> 0" using assms by simp
  have "\<lfloor>log 2 \<bar>x\<bar>\<rfloor> \<le> e" by (simp add: e_def exponent64_def)
  then have "(2::real) powr (of_int \<lfloor>log 2 \<bar>x\<bar>\<rfloor> + 1) \<le> (2::real) powr (of_int e + 1)"
    by (intro powr_mono) simp_all
  moreover have "\<bar>x\<bar> = x" using assms by simp
  ultimately have "x \<le> (2::real) powr (of_int e + 1)"
    using binade(2) [OF x0] by linarith
  then have "x / ulp64 x \<le> 2 powr (of_int e + 1) / ulp64 x"
    by (intro divide_right_mono) simp_all
  also have "\<dots> = 2 powr 53"
    by (simp add: ulp64_def e_def powr_diff [symmetric])
  also have "\<dots> = of_int (2 ^ 53)" by simp
  finally have "round_even (x / ulp64 x) \<le> round_even (of_int (2 ^ 53))"
    by (rule round_even_mono)
  then have "real_of_int (round_even (x / ulp64 x)) \<le> 2 ^ 53"
    by (simp only: round_even_of_int) simp
  then have "binary64 x \<le> 2 ^ 53 * ulp64 x"
    using x0 by (simp add: binary64_def)
  also have "\<dots> = 2 powr 53 * ulp64 x" by simp
  also have "\<dots> = 2 powr (of_int e + 1)"
    by (simp only: ulp64_def e_def powr_add [symmetric]) (simp add: add.commute)
  finally show ?thesis by (simp add: e_def)
qed

lemma binary64_lower:
  assumes "0 < x" and "- 1022 < exponent64 x"
  shows "(2::real) powr of_int (exponent64 x) \<le> binary64 x"
proof -
  define e where "e = exponent64 x"
  have x0: "x \<noteq> 0" using assms by simp
  have "e = \<lfloor>log 2 \<bar>x\<bar>\<rfloor>" using assms(2) by (simp add: e_def exponent64_def max_def split: if_splits)
  with binade(1) [OF x0] assms have "(2::real) powr of_int e \<le> x" by simp
  then have "(2::real) powr of_int e / ulp64 x \<le> x / ulp64 x"
    by (intro divide_right_mono) simp_all
  moreover have "(2::real) powr of_int e / ulp64 x = 2 powr 52"
    by (simp add: ulp64_def e_def powr_diff [symmetric])
  moreover have "(2::real) powr 52 = real_of_int (2 ^ 52)" by simp
  ultimately have "real_of_int (2 ^ 52) \<le> x / ulp64 x" by simp
  then have "round_even (of_int (2 ^ 52)) \<le> round_even (x / ulp64 x)"
    by (rule round_even_mono)
  then have "2 ^ 52 \<le> real_of_int (round_even (x / ulp64 x))"
    by (simp only: round_even_of_int) simp
  then have "2 ^ 52 * ulp64 x \<le> binary64 x"
    using x0 by (simp add: binary64_def)
  moreover have "2 ^ 52 * ulp64 x = 2 powr 52 * ulp64 x" by simp
  moreover have "(2::real) powr 52 * ulp64 x = 2 powr of_int e"
    by (simp only: ulp64_def e_def powr_add [symmetric]) simp
  ultimately show ?thesis by (simp add: e_def)
qed

text \<open>Rounding keeps the order of the non-negative numbers.\<close>

lemma binary64_mono:
  assumes "0 \<le> x" and "x \<le> y"
  shows "binary64 x \<le> binary64 y"
proof (cases "x = 0")
  case True
  then show ?thesis using assms binary64_nonneg [of y] by simp
next
  case False
  then have x: "0 < x" and y: "0 < y" using assms by simp_all
  have le: "exponent64 x \<le> exponent64 y" using x assms(2) by (rule exponent64_mono)
  show ?thesis
  proof (cases "exponent64 x = exponent64 y")
    case True
    then have u: "ulp64 x = ulp64 y" by (simp add: ulp64_def)
    have "x / ulp64 y \<le> y / ulp64 y" using assms(2) by (intro divide_right_mono) simp_all
    then have "round_even (x / ulp64 y) \<le> round_even (y / ulp64 y)" by (rule round_even_mono)
    then have "real_of_int (round_even (x / ulp64 y)) * ulp64 y
        \<le> real_of_int (round_even (y / ulp64 y)) * ulp64 y"
      by (intro mult_right_mono) simp_all
    then show ?thesis using x y by (simp add: binary64_def u)
  next
    case False
    with le have lt: "exponent64 x + 1 \<le> exponent64 y" by simp
    then have "- 1022 < exponent64 y" by (simp add: exponent64_def)
    from binary64_lower [OF y this] have l: "(2::real) powr of_int (exponent64 y) \<le> binary64 y" .
    have "real_of_int (exponent64 x) + 1 \<le> real_of_int (exponent64 y)" using lt by linarith
    then have "(2::real) powr (of_int (exponent64 x) + 1) \<le> (2::real) powr of_int (exponent64 y)"
      by (intro powr_mono) simp_all
    with binary64_upper [OF x] l show ?thesis by linarith
  qed
qed

text \<open>An integer of at most 53 bits is a double.\<close>

lemma binary64_of_int:
  assumes "\<bar>i\<bar> \<le> 2 ^ 53"
  shows "binary64 (of_int i) = of_int i"
proof (cases "i = 0")
  case True
  then show ?thesis by simp
next
  case False
  define x where "x = real_of_int i"
  define l where "l = \<lfloor>log 2 \<bar>x\<bar>\<rfloor>"
  have x0: "x \<noteq> 0" using False by (simp add: x_def)
  have x1: "1 \<le> \<bar>x\<bar>" using False unfolding x_def by (simp flip: of_int_abs)
  have xu: "\<bar>x\<bar> \<le> 2 ^ 53" using assms unfolding x_def
    by (metis of_int_abs of_int_le_iff of_int_numeral of_int_power)
  have "log 2 1 \<le> log 2 \<bar>x\<bar>" using x1 by (subst log_le_cancel_iff) simp_all
  then have l0: "0 \<le> l" by (simp add: l_def)
  have "(2::real) powr of_int l \<le> 2 ^ 53"
    using binade(1) [OF x0] xu unfolding l_def by linarith
  also have "(2::real) ^ 53 = 2 powr of_int 53" by simp
  finally have l53: "l \<le> 53" by (simp only: powr_le_cancel_iff of_int_le_iff) 
  have e: "exponent64 x = l" using l0 by (simp add: exponent64_def l_def)
  have u: "ulp64 x = 2 powr (of_int l - 52)" by (simp add: ulp64_def e)
  show ?thesis
  proof (cases "l = 53")
    case True
    then have "(2::real) powr 53 \<le> \<bar>x\<bar>" using binade(1) [OF x0] by (simp add: l_def)
    with xu have a: "\<bar>x\<bar> = 2 powr of_int 53" by simp
    have "binary64 x = x" by (rule pow2_exact [OF a]) simp
    then show ?thesis by (simp add: x_def)
  next
    case False
    with l53 have "0 \<le> 52 - l" by simp
    then have p: "(2::real) powr of_int (52 - l) = 2 ^ nat (52 - l)"
      by (subst powr_real_of_int) simp_all
    have "x / ulp64 x = x * 2 powr of_int (52 - l)"
      by (simp add: u powr_diff field_simps)
    also have "\<dots> = of_int (i * 2 ^ nat (52 - l))"
      unfolding p x_def by simp
    finally have "binary64 x = x" by (rule binary64_exact)
    then show ?thesis by (simp add: x_def)
  qed
qed

lemma binary64_numeral [simp]:
  "(numeral n :: int) \<le> 2 ^ 53 \<Longrightarrow> binary64 (numeral n) = numeral n"
  "(numeral n :: int) \<le> 2 ^ 53 \<Longrightarrow> binary64 (- numeral n) = - numeral n"
  "binary64 1 = 1"
  using binary64_of_int [of "numeral n"] binary64_of_int [of "- numeral n"]
    binary64_of_int [of 1]
  by simp_all

lemma binary64_value_1:
  "binary64 (3 / 10) =
     5404319552844595 / 18014398509481984"
  by (subst binary64_at [where e = "- 2" and q = "1 / 2 ^ 54"])
     (simp_all add: round_even_def powr_neg_numeral)

lemma binary64_value_2:
  "binary64 (16212958658533785 / 18014398509481984) =
     2026619832316723 / 2251799813685248"
  by (subst binary64_at [where e = "- 1" and q = "1 / 2 ^ 53"])
     (simp_all add: round_even_def powr_neg_numeral)

lemma binary64_value_3:
  "binary64 (6530219459687219 / 2251799813685248) =
     6530219459687219 / 2251799813685248"
  by (subst binary64_at [where e = "1" and q = "1 / 2 ^ 51"])
     (simp_all add: round_even_def powr_neg_numeral)

lemma binary64_value_4:
  "binary64 (48638875975601355 / 9007199254740992) =
     6079859496950169 / 1125899906842624"
  by (subst binary64_at [where e = "2" and q = "1 / 2 ^ 50"])
     (simp_all add: round_even_def powr_neg_numeral)

lemma binary64_value_5:
  "binary64 (16438138639902311 / 1125899906842624) =
     2054767329987789 / 140737488355328"
  by (subst binary64_at [where e = "3" and q = "1 / 2 ^ 49"])
     (simp_all add: round_even_def powr_neg_numeral)

lemma binary64_value_6:
  "binary64 (135107988821114875 / 2251799813685248) =
     60"
  by (subst binary64_at [where e = "5" and q = "1 / 2 ^ 47"])
     (simp_all add: round_even_def powr_neg_numeral)

lemma binary64_value_7:
  "binary64 (5404319552844595 / 9007199254740992) =
     5404319552844595 / 9007199254740992"
  by (subst binary64_at [where e = "- 1" and q = "1 / 2 ^ 53"])
     (simp_all add: round_even_def powr_neg_numeral)

lemma binary64_value_8:
  "binary64 (23418718062326579 / 9007199254740992) =
     5854679515581645 / 2251799813685248"
  by (subst binary64_at [where e = "1" and q = "1 / 2 ^ 51"])
     (simp_all add: round_even_def powr_neg_numeral)

lemma binary64_value_9:
  "binary64 (1 / 20) =
     3602879701896397 / 72057594037927936"
  by (subst binary64_at [where e = "- 5" and q = "1 / 2 ^ 57"])
     (simp_all add: round_even_def powr_neg_numeral)

lemma binary64_value_10:
  "binary64 (10808639105689191 / 72057594037927936) =
     1351079888211149 / 9007199254740992"
  by (subst binary64_at [where e = "- 3" and q = "1 / 2 ^ 55"])
     (simp_all add: round_even_def powr_neg_numeral)

lemma binary64_value_11:
  "binary64 (19365478397693133 / 9007199254740992) =
     4841369599423283 / 2251799813685248"
  by (subst binary64_at [where e = "1" and q = "1 / 2 ^ 51"])
     (simp_all add: round_even_def powr_neg_numeral)

lemma binary64_value_12:
  "binary64 (32425917317067573 / 36028797018963968) =
     8106479329266893 / 9007199254740992"
  by (subst binary64_at [where e = "- 1" and q = "1 / 2 ^ 53"])
     (simp_all add: round_even_def powr_neg_numeral)

lemma binary64_value_13:
  "binary64 (172037505765552947 / 9007199254740992) =
     2688086027586765 / 140737488355328"
  by (subst binary64_at [where e = "4" and q = "1 / 2 ^ 48"])
     (simp_all add: round_even_def powr_neg_numeral)

lemma binary64_value_14:
  "binary64 (90071992547409925 / 9007199254740992) =
     10"
  by (subst binary64_at [where e = "3" and q = "1 / 2 ^ 49"])
     (simp_all add: round_even_def powr_neg_numeral)

lemma binary64_value_15:
  "binary64 (3602879701896397 / 36028797018963968) =
     3602879701896397 / 36028797018963968"
  by (subst binary64_at [where e = "- 4" and q = "1 / 2 ^ 56"])
     (simp_all add: round_even_def powr_neg_numeral)

lemma binary64_value_16:
  "binary64 (75660473739824333 / 36028797018963968) =
     4728779608739021 / 2251799813685248"
  by (subst binary64_at [where e = "1" and q = "1 / 2 ^ 51"])
     (simp_all add: round_even_def powr_neg_numeral)

lemma binary64_value_17:
  "binary64 (4 / 5) =
     3602879701896397 / 4503599627370496"
  by (subst binary64_at [where e = "- 1" and q = "1 / 2 ^ 53"])
     (simp_all add: round_even_def powr_neg_numeral)

lemma binary64_value_18:
  "binary64 (10808639105689191 / 4503599627370496) =
     1351079888211149 / 562949953421312"
  by (subst binary64_at [where e = "1" and q = "1 / 2 ^ 51"])
     (simp_all add: round_even_def powr_neg_numeral)

lemma binary64_value_19:
  "binary64 (2476979795053773 / 562949953421312) =
     2476979795053773 / 562949953421312"
  by (subst binary64_at [where e = "2" and q = "1 / 2 ^ 50"])
     (simp_all add: round_even_def powr_neg_numeral)

lemma binary64_value_20:
  "binary64 (32425917317067573 / 2251799813685248) =
     8106479329266893 / 562949953421312"
  by (subst binary64_at [where e = "3" and q = "1 / 2 ^ 49"])
     (simp_all add: round_even_def powr_neg_numeral)

lemma binary64_value_21:
  "binary64 (3152519739159347 / 562949953421312) =
     3152519739159347 / 562949953421312"
  by (subst binary64_at [where e = "2" and q = "1 / 2 ^ 50"])
     (simp_all add: round_even_def powr_neg_numeral)

lemma binary64_value_22:
  "binary64 (3602879701896397 / 2251799813685248) =
     3602879701896397 / 2251799813685248"
  by (subst binary64_at [where e = "0" and q = "1 / 2 ^ 52"])
     (simp_all add: round_even_def powr_neg_numeral)

lemma binary64_value_23:
  "binary64 (8106479329266893 / 2251799813685248) =
     8106479329266893 / 2251799813685248"
  by (subst binary64_at [where e = "1" and q = "1 / 2 ^ 51"])
     (simp_all add: round_even_def powr_neg_numeral)

lemma binary64_value_24:
  "binary64 (1 / 2) =
     1 / 2"
  by (subst binary64_at [where e = "- 1" and q = "1 / 2 ^ 53"])
     (simp_all add: round_even_def powr_neg_numeral)

lemma binary64_value_25:
  "binary64 (4503599627370497 / 9007199254740992) =
     4503599627370497 / 9007199254740992"
  by (subst binary64_at [where e = "- 1" and q = "1 / 2 ^ 53"])
     (simp_all add: round_even_def powr_neg_numeral)

lemma binary64_value_26:
  "binary64 (4503599627370497 / 4503599627370496) =
     4503599627370497 / 4503599627370496"
  by (subst binary64_at [where e = "0" and q = "1 / 2 ^ 52"])
     (simp_all add: round_even_def powr_neg_numeral)

lemma binary64_value_27:
  "binary64 (13510798882111489 / 4503599627370496) =
     3"
  by (subst binary64_at [where e = "1" and q = "1 / 2 ^ 51"])
     (simp_all add: round_even_def powr_neg_numeral)

lemma binary64_value_28:
  "binary64 (1 / 5) =
     3602879701896397 / 18014398509481984"
  by (subst binary64_at [where e = "- 3" and q = "1 / 2 ^ 55"])
     (simp_all add: round_even_def powr_neg_numeral)

lemma binary64_value_29:
  "binary64 (18014398509481985 / 2251799813685248) =
     8"
  by (subst binary64_at [where e = "3" and q = "1 / 2 ^ 49"])
     (simp_all add: round_even_def powr_neg_numeral)

lemma binary64_value_30:
  "binary64 (199 / 200) =
     8962163258467287 / 9007199254740992"
  by (subst binary64_at [where e = "- 1" and q = "1 / 2 ^ 53"])
     (simp_all add: round_even_def powr_neg_numeral)

lemma binary64_value_31:
  "binary64 (40 / 147) =
     4901877145437275 / 18014398509481984"
  by (subst binary64_at [where e = "- 2" and q = "1 / 2 ^ 54"])
     (simp_all add: round_even_def powr_neg_numeral)

lemmas binary64_values =
  binary64_value_1 binary64_value_2 binary64_value_3 binary64_value_4 binary64_value_5
  binary64_value_6 binary64_value_7 binary64_value_8 binary64_value_9 binary64_value_10
  binary64_value_11 binary64_value_12 binary64_value_13 binary64_value_14
  binary64_value_15 binary64_value_16 binary64_value_17 binary64_value_18
  binary64_value_19 binary64_value_20 binary64_value_21 binary64_value_22
  binary64_value_23 binary64_value_24 binary64_value_25 binary64_value_26
  binary64_value_27 binary64_value_28 binary64_value_29 binary64_value_30
  binary64_value_31
lemma binary64_error_pow:
  assumes "\<bar>x\<bar> \<le> 2 ^ n"
  shows "\<bar>binary64 x - x\<bar> \<le> 2 ^ n / 2 ^ 54"
proof -
  have p: "(2::real) powr of_int (int n) = 2 ^ n"
    by (simp add: powr_realpow)
  have "(2::real) powr (of_int (int n) - 54) = 2 powr of_int (int n) / 2 powr 54"
    by (rule powr_diff)
  then have d: "(2::real) powr (of_int (int n) - 54) = 2 ^ n / 2 ^ 54"
    by (simp only: p) simp
  have h: "\<bar>x\<bar> \<le> 2 powr of_int (int n)" "- 1021 \<le> int n"
    using assms by (simp_all add: powr_realpow)
  show ?thesis
    using binary64_error [OF h] by (simp only: d)
qed

lemma binary64_between:
  assumes "of_int m \<le> x" and "x \<le> of_int n" and "0 \<le> m" and "n \<le> 2 ^ 53"
  shows "of_int m \<le> binary64 x" and "binary64 x \<le> of_int n"
proof -
  have m: "\<bar>m\<bar> \<le> 2 ^ 53" and n: "\<bar>n\<bar> \<le> 2 ^ 53" and x: "0 \<le> x"
    using assms by linarith+
  have "binary64 (of_int m) \<le> binary64 x"
    using assms(1,3) by (intro binary64_mono) simp_all
  then show "of_int m \<le> binary64 x" by (simp only: binary64_of_int [OF m])
  have "binary64 x \<le> binary64 (of_int n)"
    using assms(2) x by (intro binary64_mono)
  then show "binary64 x \<le> of_int n" by (simp only: binary64_of_int [OF n])
qed

text \<open>A number between 0 and 1 read as a double.\<close>

lemma binary64_unit:
  assumes "0 \<le> c" and "c \<le> 1"
  shows "0 \<le> binary64 c" and "binary64 c \<le> 1" and "\<bar>binary64 c - c\<bar> \<le> 1 / 2 ^ 54"
proof -
  show "0 \<le> binary64 c" "binary64 c \<le> 1"
    using binary64_between [of 0 c 1] assms by simp_all
  show "\<bar>binary64 c - c\<bar> \<le> 1 / 2 ^ 54"
    using binary64_error_pow [of c 0] assms by simp
qed

section \<open>Compressor parameters\<close>

lemma nat_digits_numeral:
  "nat_digits (numeral k) =
     (if (numeral k :: nat) < 10 then [''0123456789'' ! numeral k]
      else nat_digits (numeral k div 10) @ [''0123456789'' ! (numeral k mod 10)])"
  by (rule nat_digits.simps)

lemma nat_digits_0: "nat_digits 0 = ''0''"
  by (simp add: nat_digits.simps)

lemma nat_digits_1: "nat_digits 1 = ''1''" "nat_digits (Suc 0) = ''1''"
  by (simp_all add: nat_digits.simps)

lemmas nat_digits_eval = nat_digits_numeral nat_digits_0 nat_digits_1

lemmas mapper_defs = ratio_def attack_def release_def makeup_def nr_def nf_def Math_round_def
  ratio64_def attack64_def release64_def makeup64_def

lemmas render_defs = toFixed_def numberToString_def int_string_def Let_def nat_digits_eval




section \<open>The compressor parameters as doubles\<close>

text \<open>
  For a compression amount between 0 and 1, how far the computed parameters are from
  the exact formulas, and the ranges they stay in.
\<close>

lemma ratio64_close:
  assumes "0 \<le> compressionAmount config" and "compressionAmount config \<le> 1"
  shows "\<bar>ratio64 config - ratio config\<bar> \<le> 15 / 2 ^ 54"
    and "2 \<le> ratio64 config" and "ratio64 config \<le> 5"
proof -
  define c where "c = compressionAmount config"
  define a where "a = binary64 c"
  define p where "p = binary64 (a * 3)"
  define s where "s = binary64 (2 + p)"
  note a = binary64_unit [OF assms, folded c_def a_def]
  have p: "0 \<le> p" "p \<le> 3"
    using binary64_between [of 0 "a * 3" 3] a(1,2) by (simp_all add: p_def)
  have pe: "\<bar>p - a * 3\<bar> \<le> 2 ^ 2 / 2 ^ 54"
    unfolding p_def using a(1,2) by (intro binary64_error_pow) simp
  have s: "2 \<le> s" "s \<le> 5"
    using binary64_between [of 2 "2 + p" 5] p by (simp_all add: s_def)
  have se: "\<bar>s - (2 + p)\<bar> \<le> 2 ^ 3 / 2 ^ 54"
    unfolding s_def using p by (intro binary64_error_pow) simp
  have r: "ratio64 config = s" "ratio config = 2 + c * 3"
    by (simp_all add: ratio64_def ratio_def s_def p_def a_def c_def)
  show "2 \<le> ratio64 config" "ratio64 config \<le> 5" using s by (simp_all add: r)
  show "\<bar>ratio64 config - ratio config\<bar> \<le> 15 / 2 ^ 54"
    unfolding r using a(3) pe se by (simp only: abs_le_iff) (simp; linarith)
qed

lemma makeup64_close:
  assumes "0 \<le> compressionAmount config" and "compressionAmount config \<le> 1"
  shows "\<bar>makeup64 config - makeup config\<bar> \<le> 8 / 2 ^ 54"
    and "2 \<le> makeup64 config" and "makeup64 config \<le> 4"
proof -
  define c where "c = compressionAmount config"
  define a where "a = binary64 c"
  define p where "p = binary64 (a * 2)"
  define s where "s = binary64 (2 + p)"
  note a = binary64_unit [OF assms, folded c_def a_def]
  have p: "0 \<le> p" "p \<le> 2"
    using binary64_between [of 0 "a * 2" 2] a(1,2) by (simp_all add: p_def)
  have pe: "\<bar>p - a * 2\<bar> \<le> 2 ^ 1 / 2 ^ 54"
    unfolding p_def using a(1,2) by (intro binary64_error_pow) simp
  have s: "2 \<le> s" "s \<le> 4"
    using binary64_between [of 2 "2 + p" 4] p by (simp_all add: s_def)
  have se: "\<bar>s - (2 + p)\<bar> \<le> 2 ^ 2 / 2 ^ 54"
    unfolding s_def using p by (intro binary64_error_pow) simp
  have r: "makeup64 config = s" "makeup config = 2 + c * 2"
    by (simp_all add: makeup64_def makeup_def s_def p_def a_def c_def)
  show "2 \<le> makeup64 config" "makeup64 config \<le> 4" using s by (simp_all add: r)
  show "\<bar>makeup64 config - makeup config\<bar> \<le> 8 / 2 ^ 54"
    unfolding r using a(3) pe se by (simp only: abs_le_iff) (simp; linarith)
qed

lemma attack64_close:
  assumes "0 \<le> compressionAmount config" and "compressionAmount config \<le> 1"
  shows "\<bar>attack64 config - attack config\<bar> \<le> 82 / 2 ^ 54"
    and "2 \<le> attack64 config" and "attack64 config \<le> 20"
proof -
  define c where "c = compressionAmount config"
  define a where "a = binary64 c"
  define p where "p = binary64 (a * 18)"
  define s where "s = binary64 (20 - p)"
  note a = binary64_unit [OF assms, folded c_def a_def]
  have p: "0 \<le> p" "p \<le> 18"
    using binary64_between [of 0 "a * 18" 18] a(1,2) by (simp_all add: p_def)
  have pe: "\<bar>p - a * 18\<bar> \<le> 2 ^ 5 / 2 ^ 54"
    unfolding p_def using a(1,2) by (intro binary64_error_pow) simp
  have s: "2 \<le> s" "s \<le> 20"
    using binary64_between [of 2 "20 - p" 20] p by (simp_all add: s_def)
  have se: "\<bar>s - (20 - p)\<bar> \<le> 2 ^ 5 / 2 ^ 54"
    unfolding s_def using p by (intro binary64_error_pow) simp
  have r: "attack64 config = s" "attack config = 20 - c * 18"
    by (simp_all add: attack64_def attack_def s_def p_def a_def c_def)
  show "2 \<le> attack64 config" "attack64 config \<le> 20" using s by (simp_all add: r)
  show "\<bar>attack64 config - attack config\<bar> \<le> 82 / 2 ^ 54"
    unfolding r using a(3) pe se by (simp only: abs_le_iff) (simp; linarith)
qed

lemma release64_close:
  assumes "0 \<le> compressionAmount config" and "compressionAmount config \<le> 1"
  shows "\<bar>release64 config - release config\<bar> \<le> 712 / 2 ^ 54"
    and "50 \<le> release64 config" and "release64 config \<le> 250"
proof -
  define c where "c = compressionAmount config"
  define a where "a = binary64 c"
  define p where "p = binary64 (a * 200)"
  define s where "s = binary64 (250 - p)"
  note a = binary64_unit [OF assms, folded c_def a_def]
  have p: "0 \<le> p" "p \<le> 200"
    using binary64_between [of 0 "a * 200" 200] a(1,2) by (simp_all add: p_def)
  have pe: "\<bar>p - a * 200\<bar> \<le> 2 ^ 8 / 2 ^ 54"
    unfolding p_def using a(1,2) by (intro binary64_error_pow) simp
  have s: "50 \<le> s" "s \<le> 250"
    using binary64_between [of 50 "250 - p" 250] p by (simp_all add: s_def)
  have se: "\<bar>s - (250 - p)\<bar> \<le> 2 ^ 8 / 2 ^ 54"
    unfolding s_def using p by (intro binary64_error_pow) simp
  have r: "release64 config = s" "release config = 250 - c * 200"
    by (simp_all add: release64_def release_def s_def p_def a_def c_def)
  show "50 \<le> release64 config" "release64 config \<le> 250" using s by (simp_all add: r)
  show "\<bar>release64 config - release config\<bar> \<le> 712 / 2 ^ 54"
    unfolding r using a(3) pe se by (simp only: abs_le_iff) (simp; linarith)
qed

text \<open>The computed parameters keep the order of the compression amounts.\<close>

lemma compressor64_mono:
  assumes "0 \<le> compressionAmount x" and "compressionAmount x \<le> compressionAmount y"
    and "compressionAmount y \<le> 1"
  shows "ratio64 x \<le> ratio64 y" and "makeup64 x \<le> makeup64 y" and "attack64 y \<le> attack64 x"
proof -
  define a where "a = binary64 (compressionAmount x)"
  define b where "b = binary64 (compressionAmount y)"
  have y0: "0 \<le> compressionAmount y" using assms by linarith
  have a0: "0 \<le> a" unfolding a_def using assms(1) by (rule binary64_nonneg)
  have ab: "a \<le> b" unfolding a_def b_def using assms(1,2) by (rule binary64_mono)
  have b1: "b \<le> 1" unfolding b_def using binary64_unit(2) [OF y0 assms(3)] .
  have m: "0 \<le> a * k \<and> binary64 (a * k) \<le> binary64 (b * k)" if "0 \<le> k" for k
  proof -
    have "0 \<le> a * k" using a0 that by simp
    moreover have "a * k \<le> b * k" using ab that by (rule mult_right_mono)
    ultimately show ?thesis using binary64_mono by blast
  qed
  have n: "0 \<le> binary64 (a * k)" if "0 \<le> k" for k
    using a0 that by (intro binary64_nonneg) simp
  show "ratio64 x \<le> ratio64 y"
    unfolding ratio64_def a_def [symmetric] b_def [symmetric]
    using m [of 3] n [of 3] by (intro binary64_mono) simp_all
  show "makeup64 x \<le> makeup64 y"
    unfolding makeup64_def a_def [symmetric] b_def [symmetric]
    using m [of 2] n [of 2] by (intro binary64_mono) simp_all
  have "b * 18 \<le> 18" using b1 by simp
  moreover have "0 \<le> b * 18" using a0 ab by simp
  ultimately have "binary64 (b * 18) \<le> 18"
    using binary64_between(2) [of 0 "b * 18" 18] by simp
  then show "attack64 y \<le> attack64 x"
    unfolding attack64_def a_def [symmetric] b_def [symmetric]
    using m [of 18] by (intro binary64_mono) simp_all
qed

text \<open>
  C7, as the code has it. Of two configurations that differ in the compression amount
  only, both amounts between 0 and 1, the one with the larger amount has a ratio and a
  makeup that are not smaller and an attack that is not larger; and they are strictly
  larger and strictly smaller when the amounts are at least \<open>10^-15\<close> apart, as any two
  positions of the slider are (its step is 0.1).
\<close>

theorem compressor_monotone:
  assumes "0 \<le> c1" and "c1 \<le> c2" and "c2 \<le> 1"
  shows "ratio64 (config\<lparr>compressionAmount := c1\<rparr>) \<le> ratio64 (config\<lparr>compressionAmount := c2\<rparr>) \<and>
         makeup64 (config\<lparr>compressionAmount := c1\<rparr>) \<le> makeup64 (config\<lparr>compressionAmount := c2\<rparr>) \<and>
         attack64 (config\<lparr>compressionAmount := c2\<rparr>) \<le> attack64 (config\<lparr>compressionAmount := c1\<rparr>) \<and>
         (c1 + 1 / 10 ^ 15 \<le> c2 \<longrightarrow>
            ratio64 (config\<lparr>compressionAmount := c1\<rparr>) < ratio64 (config\<lparr>compressionAmount := c2\<rparr>) \<and>
            makeup64 (config\<lparr>compressionAmount := c1\<rparr>) < makeup64 (config\<lparr>compressionAmount := c2\<rparr>) \<and>
            attack64 (config\<lparr>compressionAmount := c2\<rparr>) < attack64 (config\<lparr>compressionAmount := c1\<rparr>))"
proof -
  define x where "x = config\<lparr>compressionAmount := c1\<rparr>"
  define y where "y = config\<lparr>compressionAmount := c2\<rparr>"
  have x: "0 \<le> compressionAmount x" "compressionAmount x \<le> 1"
    and y: "0 \<le> compressionAmount y" "compressionAmount y \<le> 1"
    and xy: "compressionAmount x \<le> compressionAmount y"
    using assms by (simp_all add: x_def y_def)
  note w = compressor64_mono [OF x(1) xy y(2)]
  have s: "ratio64 x < ratio64 y \<and> makeup64 x < makeup64 y \<and> attack64 y < attack64 x"
    if g: "c1 + 1 / 10 ^ 15 \<le> c2"
  proof -
    have d: "ratio y - ratio x = 3 * (c2 - c1)" "makeup y - makeup x = 2 * (c2 - c1)"
      "attack x - attack y = 18 * (c2 - c1)"
      by (simp_all add: ratio_def makeup_def attack_def x_def y_def)
    have "ratio64 x < ratio64 y"
      using ratio64_close(1) [OF x] ratio64_close(1) [OF y] d(1) g
      by (simp only: abs_le_iff) (simp; linarith)
    moreover have "makeup64 x < makeup64 y"
      using makeup64_close(1) [OF x] makeup64_close(1) [OF y] d(2) g
      by (simp only: abs_le_iff) (simp; linarith)
    moreover have "attack64 y < attack64 x"
      using attack64_close(1) [OF x] attack64_close(1) [OF y] d(3) g
      by (simp only: abs_le_iff) (simp; linarith)
    ultimately show ?thesis by blast
  qed
  from w s show ?thesis unfolding x_def y_def by blast
qed

theorem compressor_monotone_witness:
  "(0::real) \<le> 3/10 \<and> (3/10::real) \<le> 8/10 \<and> (8/10::real) \<le> 1 \<and>
   (3/10 + 1 / 10 ^ 15 :: real) \<le> 8/10 \<and>
   ratio64 (DEFAULT_CONFIG\<lparr>compressionAmount := 3/10\<rparr>)
     < ratio64 (DEFAULT_CONFIG\<lparr>compressionAmount := 8/10\<rparr>) \<and>
   makeup64 (DEFAULT_CONFIG\<lparr>compressionAmount := 3/10\<rparr>)
     < makeup64 (DEFAULT_CONFIG\<lparr>compressionAmount := 8/10\<rparr>) \<and>
   attack64 (DEFAULT_CONFIG\<lparr>compressionAmount := 8/10\<rparr>)
     < attack64 (DEFAULT_CONFIG\<lparr>compressionAmount := 3/10\<rparr>) \<and>
   ratio64 (DEFAULT_CONFIG\<lparr>compressionAmount := 3/10\<rparr>) = 6530219459687219 / 2251799813685248 \<and>
   ratio64 (DEFAULT_CONFIG\<lparr>compressionAmount := 8/10\<rparr>) = 2476979795053773 / 562949953421312"
proof -
  have v: "ratio64 (DEFAULT_CONFIG\<lparr>compressionAmount := 3/10\<rparr>) = 6530219459687219 / 2251799813685248"
    "ratio64 (DEFAULT_CONFIG\<lparr>compressionAmount := 8/10\<rparr>) = 2476979795053773 / 562949953421312"
    by (simp_all add: ratio64_def binary64_values)
  from compressor_monotone [of "3/10" "8/10" DEFAULT_CONFIG] v show ?thesis by simp
qed

text \<open>
  C7 as the specification has it fails: 0.5 and the next double above it,
  \<open>0.5 + 2^-53\<close>, are two compression amounts with the same makeup, 3. Twice the larger
  one is \<open>1 + 2^-52\<close>, and \<open>3 + 2^-52\<close> lies halfway between the doubles 3 and
  \<open>3 + 2^-51\<close>; the tie goes to 3.
\<close>

theorem adjacent_amounts_same_makeup:
  "(0::real) \<le> 1/2 \<and> (1/2::real) < 1/2 + 1 / 2 ^ 53 \<and> (1/2 + 1 / 2 ^ 53 :: real) \<le> 1 \<and>
   binary64 (1/2) = 1/2 \<and> binary64 (1/2 + 1 / 2 ^ 53) = 1/2 + 1 / 2 ^ 53 \<and>
   makeup64 (DEFAULT_CONFIG\<lparr>compressionAmount := 1/2\<rparr>) = 3 \<and>
   makeup64 (DEFAULT_CONFIG\<lparr>compressionAmount := 1/2 + 1 / 2 ^ 53\<rparr>) = 3 \<and>
   \<not> makeup64 (DEFAULT_CONFIG\<lparr>compressionAmount := 1/2\<rparr>)
       < makeup64 (DEFAULT_CONFIG\<lparr>compressionAmount := 1/2 + 1 / 2 ^ 53\<rparr>)"
  by (simp add: makeup64_def binary64_values)

section \<open>The order of the filter stages\<close>

lemma splitOn_not_Nil [simp]: "splitOn c xs \<noteq> []"
  by (induction xs) (auto split: list.splits)

lemma splitOn_single: "c \<notin> set a \<Longrightarrow> splitOn c a = [a]"
  by (induction a) auto

lemma splitOn_app: "c \<notin> set a \<Longrightarrow> splitOn c (a @ c # b) = a # splitOn c b"
  by (induction a) auto

lemma joinLines_append [simp]: "joinLines (a @ b) = joinLines a @ joinLines b"
  by (simp add: joinLines_def)

lemma joinLines_cont [simp]: "joinLines cont = []"
  by (simp add: joinLines_def cont_def backslash_def nl_def)

lemma joinLines_Nil [simp]: "joinLines [] = []"
  by (simp add: joinLines_def)

lemma joinLines_Cons:
  "joinLines (x # xs) =
     (if x \<noteq> CHR 0x5C \<and> x \<noteq> CHR 0x0A then x # joinLines xs else joinLines xs)"
  by (simp add: joinLines_def)

lemma joinLines_id: "CHR 0x5C \<notin> set s \<Longrightarrow> CHR 0x0A \<notin> set s \<Longrightarrow> joinLines s = s"
  by (induction s) (auto simp: joinLines_def)

lemma set_nat_digits: "set (nat_digits n) \<subseteq> set ''0123456789''"
proof (induction n rule: nat_digits.induct)
  case (1 n)
  have d: "k < 10 \<Longrightarrow> ''0123456789'' ! k \<in> set ''0123456789''" for k
    by (rule nth_mem) simp
  show ?case
  proof (cases "n < 10")
    case True
    then show ?thesis using d [of n] by (subst nat_digits.simps) simp
  next
    case False
    have "n mod 10 < 10" by simp
    from d [OF this] 1 False show ?thesis by (subst nat_digits.simps) simp
  qed
qed

text \<open>The three characters that separate stages and lines occur in no written number.\<close>

lemma plain_nat_digits:
  "CHR '','' \<notin> set (nat_digits n)" "CHR 0x5C \<notin> set (nat_digits n)"
  "CHR 0x0A \<notin> set (nat_digits n)"
  using set_nat_digits [of n] by auto

lemma plainD:
  assumes "plain ns"
  shows "CHR '','' \<notin> set (ns x)" "CHR 0x5C \<notin> set (ns x)" "CHR 0x0A \<notin> set (ns x)"
  using assms by (simp_all add: plain_def)

lemma plain_numberToString:
  assumes "plain ns"
  shows "CHR '','' \<notin> set (numberToString ns y)" "CHR 0x5C \<notin> set (numberToString ns y)"
    "CHR 0x0A \<notin> set (numberToString ns y)"
  by (simp_all add: numberToString_def int_string_def plainD [OF assms] plain_nat_digits)

lemma plain_toFixed:
  assumes "plain ns"
  shows "CHR '','' \<notin> set (toFixed ns f y)" "CHR 0x5C \<notin> set (toFixed ns f y)"
    "CHR 0x0A \<notin> set (toFixed ns f y)"
proof -
  have t: "c \<notin> set (nat_digits n) \<Longrightarrow> c \<notin> set (take k (nat_digits n))" for c k n
    by (meson in_set_takeD)
  have d: "c \<notin> set (nat_digits n) \<Longrightarrow> c \<notin> set (drop k (nat_digits n))" for c k n
    by (meson in_set_dropD)
  note n = plain_nat_digits
  show "CHR '','' \<notin> set (toFixed ns f y)"
    using plain_numberToString(1) [OF assms] t [OF n(1)] d [OF n(1)] n(1)
    by (auto simp: toFixed_def Let_def dest: in_set_takeD in_set_dropD)
  show "CHR 0x5C \<notin> set (toFixed ns f y)"
    using plain_numberToString(2) [OF assms] t [OF n(2)] d [OF n(2)] n(2)
    by (auto simp: toFixed_def Let_def dest: in_set_takeD in_set_dropD)
  show "CHR 0x0A \<notin> set (toFixed ns f y)"
    using plain_numberToString(3) [OF assms] t [OF n(3)] d [OF n(3)] n(3)
    by (auto simp: toFixed_def Let_def dest: in_set_takeD in_set_dropD)
qed

lemma joinLines_number:
  assumes "plain ns"
  shows "joinLines (numberToString ns y) = numberToString ns y"
    and "joinLines (toFixed ns f y) = toFixed ns f y"
  using plain_numberToString [OF assms] plain_toFixed [OF assms] by (simp_all add: joinLines_id)

lemmas stage_defs = highpass_def afftdn_def lowpass_def click_def deesser_def
  deesserFreqVal_def compressor_def limiter_def

text \<open>Ten texts without separators, laid out as the full export and as the preview do.\<close>

lemma ten_stages:
  assumes "\<And>s. s \<in> set [s1, s2, s3, s4, s5, s6, s7, s8, s9, s10] \<Longrightarrow>
             CHR '','' \<notin> set s \<and> CHR 0x5C \<notin> set s \<and> CHR 0x0A \<notin> set s"
  shows "graphStages (cont @ s1 @ '','' @ cont @ s2 @ '','' @ cont @ s3 @ '','' @ cont @
           s4 @ '','' @ cont @ s5 @ '','' @ cont @ s6 @ '','' @ cont @ s7 @ '','' @ cont @
           s8 @ '','' @ cont @ s9 @ '','' @ cont @ s10) =
         [s1, s2, s3, s4, s5, s6, s7, s8, s9, s10]"
    and "graphStages (cont @ s1 @ '','' @ cont @ s2 @ '','' @ s3 @ '','' @ s4 @ '','' @
           s5 @ '','' @ s6 @ '','' @ s7 @ '','' @ cont @ s8 @ '','' @ cont @ s9 @ '','' @ s10) =
         [s1, s2, s3, s4, s5, s6, s7, s8, s9, s10]"
proof -
  have j: "joinLines s = s" and c: "CHR '','' \<notin> set s"
    if "s \<in> set [s1, s2, s3, s4, s5, s6, s7, s8, s9, s10]" for s
    using assms [OF that] by (simp_all add: joinLines_id)
  note js = j [of s1] j [of s2] j [of s3] j [of s4] j [of s5] j [of s6] j [of s7] j [of s8]
    j [of s9] j [of s10]
  note cs = c [of s1] c [of s2] c [of s3] c [of s4] c [of s5] c [of s6] c [of s7] c [of s8]
    c [of s9] c [of s10]
  show "graphStages (cont @ s1 @ '','' @ cont @ s2 @ '','' @ cont @ s3 @ '','' @ cont @
           s4 @ '','' @ cont @ s5 @ '','' @ cont @ s6 @ '','' @ cont @ s7 @ '','' @ cont @
           s8 @ '','' @ cont @ s9 @ '','' @ cont @ s10) =
         [s1, s2, s3, s4, s5, s6, s7, s8, s9, s10]"
    using js cs by (simp add: graphStages_def joinLines_Cons splitOn_app splitOn_single)
  show "graphStages (cont @ s1 @ '','' @ cont @ s2 @ '','' @ s3 @ '','' @ s4 @ '','' @
           s5 @ '','' @ s6 @ '','' @ s7 @ '','' @ cont @ s8 @ '','' @ cont @ s9 @ '','' @ s10) =
         [s1, s2, s3, s4, s5, s6, s7, s8, s9, s10]"
    using js cs by (simp add: graphStages_def joinLines_Cons splitOn_app splitOn_single)
qed

lemma stages_of_graph:
  assumes "plain ns"
  shows "graphStages (filterGraph ns config mode) =
    [''[0:a]aformat=sample_fmts=fltp:sample_rates=44100:channel_layouts=stereo'',
     ''highpass=f='' @ numberToString ns (binary64 (highpassFreq config)) @ '':poles=2'',
     ''afftdn=nr='' @ numberToString ns (of_int (nr config)) @
       '':nf='' @ numberToString ns (of_int (nf config)) @ '':tn=1'',
     ''lowpass=f='' @ numberToString ns (binary64 (lowpassFreq config)) @ '':poles=2'',
     ''adeclick=w=55:o=75:t=25'',
     ''deesser=i='' @ toFixed ns 2 (binary64 (deesserAmount config)) @
       '':m=0.5:f='' @ toFixed ns 3 (binary64 (binary64 (deesserFreq config) / 22050)) @ '':s=o'',
     ''acompressor=threshold=-20dB:ratio='' @ toFixed ns 1 (ratio64 config) @
       '':attack='' @ toFixed ns 1 (attack64 config) @
       '':release='' @ toFixed ns 0 (release64 config) @
       '':makeup='' @ toFixed ns 1 (makeup64 config),
     ''loudnorm=I='' @ numberToString ns (binary64 (loudnormTarget config)) @
       '':TP='' @ numberToString ns (binary64 (loudnormTp config)) @
       '':LRA='' @ numberToString ns (binary64 (loudnormLra config)) @ 
       (if mode = Full then
          '':measured_I=$MEASURED_I:measured_TP=$MEASURED_TP:measured_LRA=$MEASURED_LRA'' @
          '':measured_thresh=$MEASURED_THRESH:offset=$OFFSET:linear=true'' @
          '':print_format=summary''
        else []),
     ''alimiter=limit='' @ numberToString ns (binary64 (loudnormTp config)) @
       ''dB:attack=5:release=50'',
     ''aformat=channel_layouts=mono'' @ (if mode = Full then ''[out]'' else [])]"
proof -
  define s1 where "s1 = ''[0:a]aformat=sample_fmts=fltp:sample_rates=44100:channel_layouts=stereo''"
  define s2 where "s2 = highpass ns config"
  define s3 where "s3 = afftdn ns config"
  define s4 where "s4 = lowpass ns config"
  define s5 where "s5 = click"
  define s6 where "s6 = deesser ns config"
  define s7 where "s7 = compressor ns config"
  define s8 where "s8 = ''loudnorm=I='' @ numberToString ns (binary64 (loudnormTarget config)) @
       '':TP='' @ numberToString ns (binary64 (loudnormTp config)) @
       '':LRA='' @ numberToString ns (binary64 (loudnormLra config)) @
       (if mode = Full then
          '':measured_I=$MEASURED_I:measured_TP=$MEASURED_TP:measured_LRA=$MEASURED_LRA'' @
          '':measured_thresh=$MEASURED_THRESH:offset=$OFFSET:linear=true'' @
          '':print_format=summary''
        else [])"
  define s9 where "s9 = limiter ns config"
  define s10 where "s10 = ''aformat=channel_layouts=mono'' @ (if mode = Full then ''[out]'' else [])"
  note defs = s1_def s2_def s3_def s4_def s5_def s6_def s7_def s8_def s9_def s10_def
  note p = plain_numberToString [OF assms] plain_toFixed [OF assms]
  have clean: "CHR '','' \<notin> set s \<and> CHR 0x5C \<notin> set s \<and> CHR 0x0A \<notin> set s"
    if "s \<in> set [s1, s2, s3, s4, s5, s6, s7, s8, s9, s10]" for s
  proof -
    from that consider "s = s1" | "s = s2" | "s = s3" | "s = s4" | "s = s5" | "s = s6"
      | "s = s7" | "s = s8" | "s = s9" | "s = s10" by auto
    then show ?thesis
      by cases (simp_all add: defs stage_defs p)
  qed
  show ?thesis
  proof (cases "mode = Full")
    case True
    have "filterGraph ns config mode =
        cont @ s1 @ '','' @ cont @ s2 @ '','' @ cont @ s3 @ '','' @ cont @
        s4 @ '','' @ cont @ s5 @ '','' @ cont @ s6 @ '','' @ cont @ s7 @ '','' @ cont @
        s8 @ '','' @ cont @ s9 @ '','' @ cont @ s10"
      by (simp add: filterGraph_def fullFilterGraph_def defs True)
    then have "graphStages (filterGraph ns config mode) =
        [s1, s2, s3, s4, s5, s6, s7, s8, s9, s10]"
      using ten_stages(1) [of s1 s2 s3 s4 s5 s6 s7 s8 s9 s10] clean by simp
    then show ?thesis by (simp add: defs stage_defs)
  next
    case False
    have "filterGraph ns config mode =
        cont @ s1 @ '','' @ cont @ s2 @ '','' @ s3 @ '','' @ s4 @ '','' @
        s5 @ '','' @ s6 @ '','' @ s7 @ '','' @ cont @ s8 @ '','' @ cont @ s9 @ '','' @ s10"
      by (simp add: filterGraph_def previewFilterGraph_def defs False)
    then have "graphStages (filterGraph ns config mode) =
        [s1, s2, s3, s4, s5, s6, s7, s8, s9, s10]"
      using ten_stages(2) [of s1 s2 s3 s4 s5 s6 s7 s8 s9 s10] clean by simp
    then show ?thesis by (simp add: defs stage_defs)
  qed
qed

lemma concat_map_nth_split:
  assumes "i < length xs"
  shows "concat (map f xs) =
         concat (map f (take i xs)) @ f (xs ! i) @ concat (map f (drop (Suc i) xs))"
proof -
  have "concat (map f (take i xs @ xs ! i # drop (Suc i) xs)) =
        concat (map f (take i xs)) @ f (xs ! i) @ concat (map f (drop (Suc i) xs))"
    by simp
  then show ?thesis
    by (simp only: id_take_nth_drop [OF assms, symmetric])
qed

lemma full_holds_graph:
  \<open>\<exists>pre post. concat (map (\<lambda>l. l @ nl) (fullScript ns config safeInput safeOutput)) =
     pre @ ''-filter_complex "'' @ fullFilterGraph ns config @ ''"'' @ post\<close>
proof -
  define script where "script = fullScript ns config safeInput safeOutput"
  define a where \<open>a = ''ffmpeg -nostdin -i "$TEMP_FLAC" ''\<close>
  define b where \<open>b = '' '' @ cont @ ''-map "[out]" '' @ cont @ ''-vn -map_metadata 0 '' @ cont @
      ''-c:a aac -b:a '' @ numberToString ns (binary64 (bitrate config)) @
      ''k -movflags +faststart '' @ cont @ ''"$OUTPUT"''\<close>
  have len: "38 < length script"
    by (simp add: script_def fullScript_def)
  have ab: \<open>script ! 38 =
      a @ ''-filter_complex "'' @ fullFilterGraph ns config @ ''"'' @ b\<close>
    by (simp add: script_def fullScript_def a_def b_def)
  have \<open>concat (map (\<lambda>l. l @ nl) script) =
      (concat (map (\<lambda>l. l @ nl) (take 38 script)) @ a) @
      ''-filter_complex "'' @ fullFilterGraph ns config @ ''"'' @
      (b @ nl @ concat (map (\<lambda>l. l @ nl) (drop (Suc 38) script)))\<close>
    by (simp only: concat_map_nth_split [OF len] ab append_assoc)
  then show ?thesis
    unfolding script_def by blast
qed

lemma preview_holds_graph:
  \<open>\<exists>pre post. previewCommand ns config safeInput d safeOutput =
     pre @ ''-filter_complex "'' @ previewFilterGraph ns config @ ''"'' @ post\<close>
proof -
  have \<open>previewCommand ns config safeInput d safeOutput =
     (''ffmpeg -nostdin -ss 00:05:00 -i "'' @ safeInput @ ''" -t '' @
       numberToString ns d @ '' '' @ cont) @
     ''-filter_complex "'' @ previewFilterGraph ns config @ ''"'' @
     ('' '' @ cont @
      ''-vn -c:a aac -b:a '' @ numberToString ns (binary64 (bitrate config)) @ ''k "'' @
      safeOutput @ ''"'')\<close>
    by (simp add: previewCommand_def)
  then show ?thesis by blast
qed

lemma command_holds_graph:
  \<open>\<exists>pre post. generateFFmpegCommand ns config inputPath mode outputFilePath =
     pre @ ''-filter_complex "'' @ filterGraph ns config mode @ ''"'' @ post\<close>
  using full_holds_graph preview_holds_graph
  by (simp add: generateFFmpegCommand_def Let_def filterGraph_def)

text \<open>
  C1. In every mode, for every configuration and every pair of paths, the generated text
  carries the filter graph of that mode as the argument of \<open>-filter_complex\<close>, and the
  graph has exactly ten stages, which are, in this order: the \<open>aformat\<close> that normalises
  the format (planar float samples, 44100 Hz, stereo), \<open>highpass\<close>, \<open>afftdn\<close> (noise
  reduction), \<open>lowpass\<close>, \<open>adeclick\<close> (click removal), \<open>deesser\<close>, \<open>acompressor\<close>,
  \<open>loudnorm\<close>, \<open>alimiter\<close>, and the \<open>aformat\<close> that collapses the channels to mono. The
  full export differs from the previews in two places only: its \<open>loudnorm\<close> also takes the
  measured values, and its last stage carries the link label \<open>[out]\<close>. The engine is only
  asked to write numbers without commas, backslashes and line breaks.
\<close>

theorem filter_chain_order:
  assumes "plain ns"
  shows \<open>(\<exists>pre post. generateFFmpegCommand ns config inputPath mode outputFilePath =
            pre @ ''-filter_complex "'' @ filterGraph ns config mode @ ''"'' @ post) \<and>
         graphStages (filterGraph ns config mode) =
           [''[0:a]aformat=sample_fmts=fltp:sample_rates=44100:channel_layouts=stereo'',
            ''highpass=f='' @ numberToString ns (binary64 (highpassFreq config)) @ '':poles=2'',
            ''afftdn=nr='' @ numberToString ns (of_int (nr config)) @
              '':nf='' @ numberToString ns (of_int (nf config)) @ '':tn=1'',
            ''lowpass=f='' @ numberToString ns (binary64 (lowpassFreq config)) @ '':poles=2'',
            ''adeclick=w=55:o=75:t=25'',
            ''deesser=i='' @ toFixed ns 2 (binary64 (deesserAmount config)) @
              '':m=0.5:f='' @ toFixed ns 3 (binary64 (binary64 (deesserFreq config) / 22050)) @
              '':s=o'',
            ''acompressor=threshold=-20dB:ratio='' @ toFixed ns 1 (ratio64 config) @
              '':attack='' @ toFixed ns 1 (attack64 config) @
              '':release='' @ toFixed ns 0 (release64 config) @
              '':makeup='' @ toFixed ns 1 (makeup64 config),
            ''loudnorm=I='' @ numberToString ns (binary64 (loudnormTarget config)) @
              '':TP='' @ numberToString ns (binary64 (loudnormTp config)) @
              '':LRA='' @ numberToString ns (binary64 (loudnormLra config)) @
              (if mode = Full then
                 '':measured_I=$MEASURED_I:measured_TP=$MEASURED_TP:measured_LRA=$MEASURED_LRA'' @
                 '':measured_thresh=$MEASURED_THRESH:offset=$OFFSET:linear=true'' @
                 '':print_format=summary''
               else []),
            ''alimiter=limit='' @ numberToString ns (binary64 (loudnormTp config)) @
              ''dB:attack=5:release=50'',
            ''aformat=channel_layouts=mono'' @ (if mode = Full then ''[out]'' else [])] \<and>
         map stageKind (graphStages (filterGraph ns config mode)) =
           [Some FormatNormalization, Some Highpass, Some NoiseRemoval, Some Lowpass,
            Some ClickRemoval, Some DeEsser, Some Compressor, Some LoudnessNormalization,
            Some Limiter, Some MonoCollapse] \<and>
         map stageName (graphStages (filterGraph ns config mode)) =
           [''aformat'', ''highpass'', ''afftdn'', ''lowpass'', ''adeclick'', ''deesser'',
            ''acompressor'', ''loudnorm'', ''alimiter'', ''aformat''] \<and>
         length (graphStages (filterGraph ns config mode)) = 10\<close>
proof -
  note g = stages_of_graph [OF assms, of config mode]
  have k: "map stageKind (graphStages (filterGraph ns config mode)) =
           [Some FormatNormalization, Some Highpass, Some NoiseRemoval, Some Lowpass,
            Some ClickRemoval, Some DeEsser, Some Compressor, Some LoudnessNormalization,
            Some Limiter, Some MonoCollapse]"
    unfolding g by (simp add: stageKind_def stageBody_def)
  have n: "map stageName (graphStages (filterGraph ns config mode)) =
           [''aformat'', ''highpass'', ''afftdn'', ''lowpass'', ''adeclick'', ''deesser'',
            ''acompressor'', ''loudnorm'', ''alimiter'', ''aformat'']"
    unfolding g by (simp add: stageName_def stageBody_def)
  have l: "length (graphStages (filterGraph ns config mode)) = 10"
    unfolding g by simp
  from command_holds_graph g k n l show ?thesis by blast
qed

theorem filter_chain_order_witness:
  "plain (\<lambda>x. ''NaN'') \<and>
   graphStages (filterGraph (\<lambda>x. ''NaN'') DEFAULT_CONFIG Test10s) =
     [''[0:a]aformat=sample_fmts=fltp:sample_rates=44100:channel_layouts=stereo'',
      ''highpass=f=80:poles=2'',
      ''afftdn=nr=8:nf=-72:tn=1'',
      ''lowpass=f=12000:poles=2'',
      ''adeclick=w=55:o=75:t=25'',
      ''deesser=i=0.50:m=0.5:f=0.272:s=o'',
      ''acompressor=threshold=-20dB:ratio=2.9:attack=14.6:release=190:makeup=2.6'',
      ''loudnorm=I=-19:TP=-3:LRA=11'',
      ''alimiter=limit=-3dB:attack=5:release=50'',
      ''aformat=channel_layouts=mono''] \<and>
   map stageKind (graphStages (filterGraph (\<lambda>x. ''NaN'') DEFAULT_CONFIG Test10s)) =
     [Some FormatNormalization, Some Highpass, Some NoiseRemoval, Some Lowpass,
      Some ClickRemoval, Some DeEsser, Some Compressor, Some LoudnessNormalization,
      Some Limiter, Some MonoCollapse] \<and>
   length (graphStages (filterGraph (\<lambda>x. ''NaN'') DEFAULT_CONFIG Test10s)) = 10"
proof -
  have h: "plain (\<lambda>x. ''NaN'')" by (simp add: plain_def)
  have v: "numberToString (\<lambda>x. ''NaN'') (binary64 (highpassFreq DEFAULT_CONFIG)) = ''80''"
    "numberToString (\<lambda>x. ''NaN'') (of_int (nr DEFAULT_CONFIG)) = ''8''"
    "numberToString (\<lambda>x. ''NaN'') (of_int (nf DEFAULT_CONFIG)) = ''-72''"
    "numberToString (\<lambda>x. ''NaN'') (binary64 (lowpassFreq DEFAULT_CONFIG)) = ''12000''"
    "toFixed (\<lambda>x. ''NaN'') 2 (binary64 (deesserAmount DEFAULT_CONFIG)) = ''0.50''"
    "toFixed (\<lambda>x. ''NaN'') 3 (binary64 (binary64 (deesserFreq DEFAULT_CONFIG) / 22050)) = ''0.272''"
    "toFixed (\<lambda>x. ''NaN'') 1 (ratio64 DEFAULT_CONFIG) = ''2.9''"
    "toFixed (\<lambda>x. ''NaN'') 1 (attack64 DEFAULT_CONFIG) = ''14.6''"
    "toFixed (\<lambda>x. ''NaN'') 0 (release64 DEFAULT_CONFIG) = ''190''"
    "toFixed (\<lambda>x. ''NaN'') 1 (makeup64 DEFAULT_CONFIG) = ''2.6''"
    "numberToString (\<lambda>x. ''NaN'') (binary64 (loudnormTarget DEFAULT_CONFIG)) = ''-19''"
    "numberToString (\<lambda>x. ''NaN'') (binary64 (loudnormTp DEFAULT_CONFIG)) = ''-3''"
    "numberToString (\<lambda>x. ''NaN'') (binary64 (loudnormLra DEFAULT_CONFIG)) = ''11''"
    by (simp_all add: DEFAULT_CONFIG_def mapper_defs binary64_values render_defs)
  note t = filter_chain_order [OF h, of DEFAULT_CONFIG "''book.m4b''" Test10s None]
  have g: "graphStages (filterGraph (\<lambda>x. ''NaN'') DEFAULT_CONFIG Test10s) =
     [''[0:a]aformat=sample_fmts=fltp:sample_rates=44100:channel_layouts=stereo'',
      ''highpass=f=80:poles=2'',
      ''afftdn=nr=8:nf=-72:tn=1'',
      ''lowpass=f=12000:poles=2'',
      ''adeclick=w=55:o=75:t=25'',
      ''deesser=i=0.50:m=0.5:f=0.272:s=o'',
      ''acompressor=threshold=-20dB:ratio=2.9:attack=14.6:release=190:makeup=2.6'',
      ''loudnorm=I=-19:TP=-3:LRA=11'',
      ''alimiter=limit=-3dB:attack=5:release=50'',
      ''aformat=channel_layouts=mono'']"
    using t [THEN conjunct2, THEN conjunct1] by (simp only: v) simp
  from h g t show ?thesis by blast
qed

section \<open>The full export\<close>

lemmas script_defs = fullScript_def classify_def headphone_def keyboard_def check_mark_def
  sq_def backslash_def

lemma full_graph_reads_measured:
  \<open>\<exists>a b. fullFilterGraph ns config =
     a @ ''loudnorm=I='' @ numberToString ns (binary64 (loudnormTarget config)) @
       '':TP='' @ numberToString ns (binary64 (loudnormTp config)) @
       '':LRA='' @ numberToString ns (binary64 (loudnormLra config)) @
       '':measured_I=$MEASURED_I:measured_TP=$MEASURED_TP:measured_LRA=$MEASURED_LRA'' @
       '':measured_thresh=$MEASURED_THRESH:offset=$OFFSET:linear=true:print_format=summary,'' @
       b\<close>
proof -
  have \<open>fullFilterGraph ns config =
     (cont @
      ''[0:a]aformat=sample_fmts=fltp:sample_rates=44100:channel_layouts=stereo,'' @ cont @
      highpass ns config @ '','' @ cont @ afftdn ns config @ '','' @ cont @
      lowpass ns config @ '','' @ cont @ click @ '','' @ cont @
      deesser ns config @ '','' @ cont @ compressor ns config @ '','' @ cont) @
     ''loudnorm=I='' @ numberToString ns (binary64 (loudnormTarget config)) @
       '':TP='' @ numberToString ns (binary64 (loudnormTp config)) @
       '':LRA='' @ numberToString ns (binary64 (loudnormLra config)) @
       '':measured_I=$MEASURED_I:measured_TP=$MEASURED_TP:measured_LRA=$MEASURED_LRA'' @
       '':measured_thresh=$MEASURED_THRESH:offset=$OFFSET:linear=true:print_format=summary,'' @
     (cont @ limiter ns config @ '','' @ cont @ ''aformat=channel_layouts=mono[out]'')\<close>
    by (simp add: fullFilterGraph_def)
  then show ?thesis by blast
qed

text \<open>
  C2. For every configuration and every pair of paths the full-mode text is the full
  script, whose steps are, in this order and with nothing else of these kinds: the
  announcement of phase 1, the extraction to the intermediate FLAC, the measuring
  loudnorm pass over it, the capture of the five measured values, the five fallback
  assignments, the announcement of phase 2, the processing loudnorm pass over the
  intermediate FLAC, and the removal of the intermediate FLAC. So there are two phases,
  each with one loudnorm pass, and one cleanup. The five captures fill \<open>MEASURED_I\<close>,
  \<open>MEASURED_TP\<close>, \<open>MEASURED_LRA\<close>, \<open>MEASURED_THRESH\<close> and \<open>OFFSET\<close>; the five fallbacks
  give the same five variables, when empty, the configured target, true peak and LRA,
  \<open>-70.0\<close> and \<open>0.0\<close>; and the \<open>loudnorm\<close> stage of the processing pass reads these
  five variables. The function returns this text for every input.
\<close>

theorem full_export_plan:
  \<open>generateFFmpegCommand ns config inputPath Full outputFilePath =
     concat (map (\<lambda>l. l @ nl)
       (fullScript ns config (resolveShellPath (str_or (Some inputPath) ''input.m4b''))
          (resolveShellPath (str_or outputFilePath ''processed_audiobook.m4b'')))) \<and>
   steps (fullScript ns config safeInput safeOutput) =
     [Phase, Extract, MeasurePass, Capture, Capture, Capture, Capture, Capture,
      Fallback, Fallback, Fallback, Fallback, Fallback, Phase, ProcessPass, Cleanup] \<and>
   filter (\<lambda>l. classify l = Some Extract) (fullScript ns config safeInput safeOutput) =
     [''ffmpeg -nostdin -v warning -i "$INPUT" -vn -acodec flac -compression_level '' @
        numberToString ns (binary64 (flacCompressionLevel config)) @
        '' -ar 44100 -map_metadata 0 "$TEMP_FLAC" -y''] \<and>
   filter (\<lambda>l. classify l = Some MeasurePass) (fullScript ns config safeInput safeOutput) =
     [''LOUDNESS_DATA=$(ffmpeg -nostdin -i "$TEMP_FLAC" -af loudnorm=I='' @
        numberToString ns (binary64 (loudnormTarget config)) @
        '':TP='' @ numberToString ns (binary64 (loudnormTp config)) @
        '':LRA='' @ numberToString ns (binary64 (loudnormLra config)) @
        '':print_format=json -f null - 2>&1 | grep -A 12 "loudnorm" | tail -n 12)''] \<and>
   List.map_filter captureOf (fullScript ns config safeInput safeOutput) =
     [(''MEASURED_I'', ''input_i''), (''MEASURED_TP'', ''input_tp''),
      (''MEASURED_LRA'', ''input_lra''), (''MEASURED_THRESH'', ''input_thresh''),
      (''OFFSET'', ''target_offset'')] \<and>
   filter (\<lambda>l. classify l = Some Fallback) (fullScript ns config safeInput safeOutput) =
     ['': ${MEASURED_I:='' @ numberToString ns (binary64 (loudnormTarget config)) @ ''}'',
      '': ${MEASURED_TP:='' @ numberToString ns (binary64 (loudnormTp config)) @ ''}'',
      '': ${MEASURED_LRA:='' @ numberToString ns (binary64 (loudnormLra config)) @ ''}'',
      '': ${MEASURED_THRESH:=-70.0}'',
      '': ${OFFSET:=0.0}''] \<and>
   List.map_filter fallbackOf (fullScript ns config safeInput safeOutput) =
     [(''MEASURED_I'', numberToString ns (binary64 (loudnormTarget config))),
      (''MEASURED_TP'', numberToString ns (binary64 (loudnormTp config))),
      (''MEASURED_LRA'', numberToString ns (binary64 (loudnormLra config))),
      (''MEASURED_THRESH'', ''-70.0''),
      (''OFFSET'', ''0.0'')] \<and>
   filter (\<lambda>l. classify l = Some ProcessPass) (fullScript ns config safeInput safeOutput) =
     [''ffmpeg -nostdin -i "$TEMP_FLAC" -filter_complex "'' @ fullFilterGraph ns config @
        ''" '' @ cont @ ''-map "[out]" '' @ cont @ ''-vn -map_metadata 0 '' @ cont @
        ''-c:a aac -b:a '' @ numberToString ns (binary64 (bitrate config)) @
        ''k -movflags +faststart '' @ cont @ ''"$OUTPUT"''] \<and>
   (\<exists>a b. fullFilterGraph ns config =
      a @ ''loudnorm=I='' @ numberToString ns (binary64 (loudnormTarget config)) @
        '':TP='' @ numberToString ns (binary64 (loudnormTp config)) @
        '':LRA='' @ numberToString ns (binary64 (loudnormLra config)) @
        '':measured_I=$MEASURED_I:measured_TP=$MEASURED_TP:measured_LRA=$MEASURED_LRA'' @
        '':measured_thresh=$MEASURED_THRESH:offset=$OFFSET:linear=true:print_format=summary,'' @
        b) \<and>
   filter (\<lambda>l. classify l = Some Cleanup) (fullScript ns config safeInput safeOutput) =
     [''rm "$TEMP_FLAC"'']\<close>
proof (intro conjI)
  show \<open>generateFFmpegCommand ns config inputPath Full outputFilePath =
     concat (map (\<lambda>l. l @ nl)
       (fullScript ns config (resolveShellPath (str_or (Some inputPath) ''input.m4b''))
          (resolveShellPath (str_or outputFilePath ''processed_audiobook.m4b''))))\<close>
    by (simp add: generateFFmpegCommand_def)
next
  show "steps (fullScript ns config safeInput safeOutput) =
     [Phase, Extract, MeasurePass, Capture, Capture, Capture, Capture, Capture,
      Fallback, Fallback, Fallback, Fallback, Fallback, Phase, ProcessPass, Cleanup]"
    by (simp add: steps_def List.map_filter_def script_defs)
next
  show \<open>filter (\<lambda>l. classify l = Some Extract) (fullScript ns config safeInput safeOutput) =
     [''ffmpeg -nostdin -v warning -i "$INPUT" -vn -acodec flac -compression_level '' @
        numberToString ns (binary64 (flacCompressionLevel config)) @
        '' -ar 44100 -map_metadata 0 "$TEMP_FLAC" -y'']\<close>
    by (simp add: script_defs)
next
  show \<open>filter (\<lambda>l. classify l = Some MeasurePass) (fullScript ns config safeInput safeOutput) =
     [''LOUDNESS_DATA=$(ffmpeg -nostdin -i "$TEMP_FLAC" -af loudnorm=I='' @
        numberToString ns (binary64 (loudnormTarget config)) @
        '':TP='' @ numberToString ns (binary64 (loudnormTp config)) @
        '':LRA='' @ numberToString ns (binary64 (loudnormLra config)) @
        '':print_format=json -f null - 2>&1 | grep -A 12 "loudnorm" | tail -n 12)'']\<close>
    by (simp add: script_defs)
next
  show "List.map_filter captureOf (fullScript ns config safeInput safeOutput) =
     [(''MEASURED_I'', ''input_i''), (''MEASURED_TP'', ''input_tp''),
      (''MEASURED_LRA'', ''input_lra''), (''MEASURED_THRESH'', ''input_thresh''),
      (''OFFSET'', ''target_offset'')]"
    by (simp add: List.map_filter_def captureOf_def script_defs)
next
  show "filter (\<lambda>l. classify l = Some Fallback) (fullScript ns config safeInput safeOutput) =
     ['': ${MEASURED_I:='' @ numberToString ns (binary64 (loudnormTarget config)) @ ''}'',
      '': ${MEASURED_TP:='' @ numberToString ns (binary64 (loudnormTp config)) @ ''}'',
      '': ${MEASURED_LRA:='' @ numberToString ns (binary64 (loudnormLra config)) @ ''}'',
      '': ${MEASURED_THRESH:=-70.0}'',
      '': ${OFFSET:=0.0}'']"
    by (simp add: script_defs)
next
  show "List.map_filter fallbackOf (fullScript ns config safeInput safeOutput) =
     [(''MEASURED_I'', numberToString ns (binary64 (loudnormTarget config))),
      (''MEASURED_TP'', numberToString ns (binary64 (loudnormTp config))),
      (''MEASURED_LRA'', numberToString ns (binary64 (loudnormLra config))),
      (''MEASURED_THRESH'', ''-70.0''),
      (''OFFSET'', ''0.0'')]"
    by (simp add: List.map_filter_def fallbackOf_def fullScript_def headphone_def keyboard_def
        check_mark_def sq_def backslash_def butlast_append)
next
  show \<open>filter (\<lambda>l. classify l = Some ProcessPass) (fullScript ns config safeInput safeOutput) =
     [''ffmpeg -nostdin -i "$TEMP_FLAC" -filter_complex "'' @ fullFilterGraph ns config @
        ''" '' @ cont @ ''-map "[out]" '' @ cont @ ''-vn -map_metadata 0 '' @ cont @
        ''-c:a aac -b:a '' @ numberToString ns (binary64 (bitrate config)) @
        ''k -movflags +faststart '' @ cont @ ''"$OUTPUT"'']\<close>
    by (simp add: script_defs)
next
  show \<open>\<exists>a b. fullFilterGraph ns config =
      a @ ''loudnorm=I='' @ numberToString ns (binary64 (loudnormTarget config)) @
        '':TP='' @ numberToString ns (binary64 (loudnormTp config)) @
        '':LRA='' @ numberToString ns (binary64 (loudnormLra config)) @
        '':measured_I=$MEASURED_I:measured_TP=$MEASURED_TP:measured_LRA=$MEASURED_LRA'' @
        '':measured_thresh=$MEASURED_THRESH:offset=$OFFSET:linear=true:print_format=summary,'' @
        b\<close>
    by (rule full_graph_reads_measured)
next
  show \<open>filter (\<lambda>l. classify l = Some Cleanup) (fullScript ns config safeInput safeOutput) =
     [''rm "$TEMP_FLAC"'']\<close>
    by (simp add: script_defs)
qed

section \<open>Execution modes\<close>

lemma Mode_closed: "(UNIV :: Mode set) = {Test45s, Test10s, Full}"
proof -
  have "m \<in> {Test45s, Test10s, Full}" for m
    by (cases m) simp_all
  then show ?thesis by blast
qed

text \<open>
  C9. The modes are the three of the type and no other, so there is no mode outside the
  set that could be refused; and for each of the three \<open>generateFFmpegCommand\<close>
  returns a text: for \<open>full\<close> the full script, which begins with \<open>#!/bin/bash\<close>, for
  \<open>test-45s\<close> the preview command with \<open>-t 45\<close> and for \<open>test-10s\<close> the preview
  command with \<open>-t 10\<close>, each with its own default output name.
\<close>

theorem every_mode_has_its_script:
  \<open>(UNIV :: Mode set) = {Test45s, Test10s, Full} \<and>
   generateFFmpegCommand ns config inputPath Full outputFilePath =
     concat (map (\<lambda>l. l @ nl)
       (fullScript ns config (resolveShellPath (str_or (Some inputPath) ''input.m4b''))
          (resolveShellPath (str_or outputFilePath ''processed_audiobook.m4b'')))) \<and>
   take 12 (generateFFmpegCommand ns config inputPath Full outputFilePath) =
     ''#!/bin/bash'' @ nl \<and>
   generateFFmpegCommand ns config inputPath Test45s outputFilePath =
     ''ffmpeg -nostdin -ss 00:05:00 -i "'' @
       resolveShellPath (str_or (Some inputPath) ''input.m4b'') @ ''" -t 45 '' @ cont @
     ''-filter_complex "'' @ previewFilterGraph ns config @ ''" '' @ cont @
     ''-vn -c:a aac -b:a '' @ numberToString ns (binary64 (bitrate config)) @ ''k "'' @
       resolveShellPath (str_or outputFilePath ''preview-preview-45s.m4b'') @ ''"'' \<and>
   generateFFmpegCommand ns config inputPath Test10s outputFilePath =
     ''ffmpeg -nostdin -ss 00:05:00 -i "'' @
       resolveShellPath (str_or (Some inputPath) ''input.m4b'') @ ''" -t 10 '' @ cont @
     ''-filter_complex "'' @ previewFilterGraph ns config @ ''" '' @ cont @
     ''-vn -c:a aac -b:a '' @ numberToString ns (binary64 (bitrate config)) @ ''k "'' @
       resolveShellPath (str_or outputFilePath ''preview-preview-10s.m4b'') @ ''"''\<close>
proof (intro conjI)
  show "(UNIV :: Mode set) = {Test45s, Test10s, Full}" by (rule Mode_closed)
next
  show \<open>generateFFmpegCommand ns config inputPath Full outputFilePath =
     concat (map (\<lambda>l. l @ nl)
       (fullScript ns config (resolveShellPath (str_or (Some inputPath) ''input.m4b''))
          (resolveShellPath (str_or outputFilePath ''processed_audiobook.m4b''))))\<close>
    by (simp add: generateFFmpegCommand_def)
next
  show \<open>take 12 (generateFFmpegCommand ns config inputPath Full outputFilePath) =
     ''#!/bin/bash'' @ nl\<close>
    by (simp add: generateFFmpegCommand_def fullScript_def nl_def)
next
  show \<open>generateFFmpegCommand ns config inputPath Test45s outputFilePath =
     ''ffmpeg -nostdin -ss 00:05:00 -i "'' @
       resolveShellPath (str_or (Some inputPath) ''input.m4b'') @ ''" -t 45 '' @ cont @
     ''-filter_complex "'' @ previewFilterGraph ns config @ ''" '' @ cont @
     ''-vn -c:a aac -b:a '' @ numberToString ns (binary64 (bitrate config)) @ ''k "'' @
       resolveShellPath (str_or outputFilePath ''preview-preview-45s.m4b'') @ ''"''\<close>
    by (simp add: generateFFmpegCommand_def previewCommand_def render_defs)
next
  show \<open>generateFFmpegCommand ns config inputPath Test10s outputFilePath =
     ''ffmpeg -nostdin -ss 00:05:00 -i "'' @
       resolveShellPath (str_or (Some inputPath) ''input.m4b'') @ ''" -t 10 '' @ cont @
     ''-filter_complex "'' @ previewFilterGraph ns config @ ''" '' @ cont @
     ''-vn -c:a aac -b:a '' @ numberToString ns (binary64 (bitrate config)) @ ''k "'' @
       resolveShellPath (str_or outputFilePath ''preview-preview-10s.m4b'') @ ''"''\<close>
    by (simp add: generateFFmpegCommand_def previewCommand_def render_defs)
qed

section \<open>The precision of the written parameters\<close>

lemma digit_nth: "k < 10 \<Longrightarrow> is_digit (''0123456789'' ! k) \<and> digit_value (''0123456789'' ! k) = k"
proof -
  assume "k < 10"
  then have "k \<in> {0,1,2,3,4,5,6,7,8,9}" by auto
  then show ?thesis
    by (auto simp: is_digit_def digit_value_def)
qed

lemma digits_value_snoc: "digits_value (ds @ [c]) = 10 * digits_value ds + digit_value c"
  by (simp add: digits_value_def)

lemma nat_digits_props:
  "nat_digits n \<noteq> [] \<and> list_all is_digit (nat_digits n) \<and> digits_value (nat_digits n) = n"
proof (induction n rule: nat_digits.induct)
  case (1 n)
  show ?case
  proof (cases "n < 10")
    case True
    then show ?thesis
      using digit_nth [of n] by (subst (1 2 3) nat_digits.simps) (simp add: digits_value_def)
  next
    case False
    have "n mod 10 < 10" by simp
    from digit_nth [OF this] 1 [OF False] False show ?thesis
      by (subst (1 2 3) nat_digits.simps) (simp add: digits_value_snoc)
  qed
qed

lemma digits_value_zero: "digits_value (CHR ''0'' # ds) = digits_value ds"
  by (simp add: digits_value_def digit_value_def)

lemma digits_value_zeros: "digits_value (replicate k (CHR ''0'') @ ds) = digits_value ds"
  by (induction k) (simp_all add: digits_value_zero)

lemma is_digit_chars: "is_digit c \<Longrightarrow> c \<noteq> CHR ''.'' \<and> c \<noteq> CHR ''-''"
  by (auto simp: is_digit_def)

lemma fixed_parts:
  assumes ip: "ip \<noteq> []" "list_all is_digit ip"
    and fr: "list_all is_digit fp" "f = 0 \<longrightarrow> fp = []"
    and sg: "sg = [] \<or> sg = ''-''"
    and s: "s = sg @ ip @ (if f = 0 then [] else ''.'') @ fp"
  shows "unsigned s = ip @ (if f = 0 then [] else ''.'') @ fp"
    and "intPart s = ip" and "fracPart s = fp" and "prefix ''-'' s \<longleftrightarrow> sg = ''-''"
proof -
  obtain c cs where c: "ip = c # cs" using ip(1) by (cases ip) auto
  then have cd: "c \<noteq> CHR ''-''" using ip(2) is_digit_chars by auto
  show p: "prefix ''-'' s \<longleftrightarrow> sg = ''-''"
    using sg cd by (auto simp: s c)
  show u: "unsigned s = ip @ (if f = 0 then [] else ''.'') @ fp"
    using sg cd by (auto simp: unsigned_def s c)
  have nd: "\<forall>x \<in> set ip. x \<noteq> CHR ''.''" "\<forall>x \<in> set fp. x \<noteq> CHR ''.''"
    using ip(2) fr(1) is_digit_chars by (auto simp: list_all_iff)
  show "intPart s = ip"
    unfolding intPart_def u using nd fr(2)
    by (cases "f = 0") (simp_all add: takeWhile_tail)
  show "fracPart s = fp"
  proof (cases "f = 0")
    case True
    with fr(2) have e: "fp = []" by simp
    have d: "dropWhile (\<lambda>c. c \<noteq> CHR ''.'') ip = []"
      using nd(1) by (simp add: dropWhile_eq_Nil_conv)
    show ?thesis unfolding fracPart_def u by (simp add: True e d)
  next
    case False
    then show ?thesis unfolding fracPart_def u using nd(1) by (simp add: dropWhile_append3)
  qed
qed

lemma round_half_close:
  fixes x :: real
  assumes "0 \<le> x"
  shows "\<bar>real (nat \<lfloor>x * 10 ^ f + 1/2\<rfloor>) / 10 ^ f - x\<bar> \<le> 1 / (2 * 10 ^ f)"
proof -
  define y where "y = x * 10 ^ f"
  have y0: "0 \<le> y" using assms by (simp add: y_def)
  then have "0 \<le> \<lfloor>y + 1/2\<rfloor>" by simp
  then have r: "real (nat \<lfloor>y + 1/2\<rfloor>) = of_int \<lfloor>y + 1/2\<rfloor>" by simp
  have "of_int \<lfloor>y + 1/2\<rfloor> \<le> y + 1/2" "y + 1/2 < of_int \<lfloor>y + 1/2\<rfloor> + 1"
    by linarith+
  then have "\<bar>real (nat \<lfloor>y + 1/2\<rfloor>) - y\<bar> \<le> 1/2" unfolding r by linarith
  then have "\<bar>real (nat \<lfloor>y + 1/2\<rfloor>) - y\<bar> / 10 ^ f \<le> (1/2) / 10 ^ f"
    by (rule divide_right_mono) simp
  moreover have "real (nat \<lfloor>y + 1/2\<rfloor>) / 10 ^ f - x = (real (nat \<lfloor>y + 1/2\<rfloor>) - y) / 10 ^ f"
    by (simp add: y_def diff_divide_distrib)
  then have "\<bar>real (nat \<lfloor>y + 1/2\<rfloor>) / 10 ^ f - x\<bar> = \<bar>real (nat \<lfloor>y + 1/2\<rfloor>) - y\<bar> / 10 ^ f"
    by (simp only: abs_divide) simp
  ultimately show ?thesis by (simp add: y_def)
qed

lemma toFixed_shape:
  assumes "\<bar>x\<bar> < 10 ^ 21"
  shows "isFixed f (toFixed ns f x) \<and>
         fixedValue (toFixed ns f x) =
           (if x < 0 then - 1 else 1) * real (nat \<lfloor>\<bar>x\<bar> * 10 ^ f + 1/2\<rfloor>) / 10 ^ f"
proof -
  define n where "n = nat \<lfloor>\<bar>x\<bar> * 10 ^ f + 1/2\<rfloor>"
  define m where "m = nat_digits n"
  define m' where "m' = (if length m \<le> f then replicate (f + 1 - length m) (CHR ''0'') @ m else m)"
  define ip where "ip = take (length m' - f) m'"
  define fp where "fp = drop (length m' - f) m'"
  define sg where "sg = (if x < 0 then ''-'' else [])"
  note mp = nat_digits_props [of n, folded m_def]
  have z: "is_digit (CHR ''0'')" by (simp add: is_digit_def)
  have m'd: "list_all is_digit m'" using mp z by (simp add: m'_def list_all_iff)
  have m'v: "digits_value m' = n" using mp by (simp add: m'_def digits_value_zeros)
  have m'l: "f < length m'" using mp by (cases m) (auto simp: m'_def)
  have s: "toFixed ns f x = sg @ ip @ (if f = 0 then [] else ''.'') @ fp"
    using assms nat_digits_props
    by (simp add: toFixed_def Let_def n_def m_def m'_def ip_def fp_def sg_def)
  have ip: "ip \<noteq> []" "list_all is_digit ip"
    using m'l m'd by (auto simp: ip_def list_all_iff dest: in_set_takeD)
  have fp: "list_all is_digit fp" "length fp = f" "f = 0 \<longrightarrow> fp = []"
    using m'l m'd by (auto simp: fp_def list_all_iff dest: in_set_dropD)
  have sg: "sg = [] \<or> sg = ''-''" by (simp add: sg_def)
  note parts = fixed_parts [OF ip fp(1) fp(3) sg s]
  have fmt: "isFixed f (toFixed ns f x)"
    using ip fp by (simp add: isFixed_def parts)
  have ipfp: "ip @ fp = m'" by (simp add: ip_def fp_def)
  have v: "fixedValue (toFixed ns f x) = (if x < 0 then - 1 else 1) * real n / 10 ^ f"
    by (simp add: fixedValue_def parts ipfp m'v fp(2) sg_def)
  from fmt v show ?thesis by (simp add: n_def)
qed

lemma toFixed_correct:
  assumes "\<bar>x\<bar> < 10 ^ 21"
  shows "isFixed f (toFixed ns f x) \<and> \<bar>fixedValue (toFixed ns f x) - x\<bar> \<le> 1 / (2 * 10 ^ f)"
proof -
  define n where "n = nat \<lfloor>\<bar>x\<bar> * 10 ^ f + 1/2\<rfloor>"
  have v: "fixedValue (toFixed ns f x) = (if x < 0 then - 1 else 1) * real n / 10 ^ f"
    using toFixed_shape [OF assms, of f ns] by (simp add: n_def)
  have c: "\<bar>real n / 10 ^ f - \<bar>x\<bar>\<bar> \<le> 1 / (2 * 10 ^ f)"
    unfolding n_def by (rule round_half_close) simp
  have "\<bar>fixedValue (toFixed ns f x) - x\<bar> = \<bar>real n / 10 ^ f - \<bar>x\<bar>\<bar>"
    unfolding v by (cases "x < 0") simp_all
  with c toFixed_shape [OF assms, of f ns] show ?thesis by simp
qed

text \<open>Below \<open>10^21\<close>, \<open>toFixed1\<close> is the number that the text of \<open>toFixed(1)\<close> denotes.\<close>

lemma toFixed1_is_toFixed: "\<bar>x\<bar> < 10 ^ 21 \<Longrightarrow> toFixed1 x = fixedValue (toFixed ns 1 x)"
  using toFixed_shape [of x 1 ns] by (simp add: toFixed1_def)

lemma toFixed_roundedTo: "\<bar>x\<bar> < 10 ^ 21 \<Longrightarrow> roundedTo f x (toFixed ns f x)"
  using toFixed_correct [of x f ns] by (simp add: roundedTo_def)

lemma int_string_fixed: "isFixed 0 (int_string i) \<and> fixedValue (int_string i) = real_of_int i"
proof -
  define sg where "sg = (if i < 0 then ''-'' else [])"
  define m where "m = nat_digits (nat \<bar>i\<bar>)"
  note mp = nat_digits_props [of "nat \<bar>i\<bar>", folded m_def]
  have s: "int_string i = sg @ m @ (if (0::nat) = 0 then [] else ''.'') @ []"
    by (simp add: int_string_def sg_def m_def)
  have sg: "sg = [] \<or> sg = ''-''" by (simp add: sg_def)
  have e: "list_all is_digit []" "(0::nat) = 0 \<longrightarrow> ([]::string) = []" by simp_all
  note parts = fixed_parts [OF mp [THEN conjunct1] mp [THEN conjunct2, THEN conjunct1] e sg s]
  have "isFixed 0 (int_string i)"
    using mp by (simp add: isFixed_def parts)
  moreover have "fixedValue (int_string i) = real_of_int i"
    using mp by (simp add: fixedValue_def parts sg_def)
  ultimately show ?thesis by simp
qed

lemma Math_round_close: "\<bar>real_of_int (Math_round x) - x\<bar> \<le> 1/2"
  unfolding Math_round_def by linarith

lemma numberToString_int:
  "\<bar>i\<bar> < 10 ^ 21 \<Longrightarrow> numberToString ns (of_int i) = int_string i"
proof -
  assume "\<bar>i\<bar> < 10 ^ 21"
  then have "\<bar>real_of_int i\<bar> < real_of_int (10 ^ 21)"
    by (simp only: of_int_abs [symmetric] of_int_less_iff)
  then show ?thesis by (simp add: numberToString_def)
qed

text \<open>
  The noise-reduction pair and the two numbers of the de-esser, for settings inside the
  ranges of their sliders: how far the computed doubles are from the exact formulas.
\<close>

lemma noise_close:
  assumes "0 \<le> noiseReduction config" and "noiseReduction config \<le> 1"
  shows "\<bar>real_of_int (nr config) - noiseReduction config * 40\<bar> \<le> 1/2 + 104 / 2 ^ 54"
    and "\<bar>real_of_int (nf config) - (- 80 + noiseReduction config * 40)\<bar> \<le> 1/2 + 232 / 2 ^ 54"
    and "\<bar>nr config\<bar> \<le> 41" and "\<bar>nf config\<bar> \<le> 81"
proof -
  define c where "c = noiseReduction config"
  define a where "a = binary64 c"
  define p where "p = binary64 (a * 40)"
  define s where "s = binary64 (- 80 + p)"
  note a = binary64_unit [OF assms, folded c_def a_def]
  have p: "0 \<le> p" "p \<le> 40"
    using binary64_between [of 0 "a * 40" 40] a(1,2) by (simp_all add: p_def)
  have pe: "\<bar>p - a * 40\<bar> \<le> 2 ^ 6 / 2 ^ 54"
    unfolding p_def using a(1,2) by (intro binary64_error_pow) simp
  have se: "\<bar>s - (- 80 + p)\<bar> \<le> 2 ^ 7 / 2 ^ 54"
    unfolding s_def using p by (intro binary64_error_pow) simp
  have r: "nr config = Math_round p" "nf config = Math_round s"
    by (simp_all add: nr_def nf_def s_def p_def a_def c_def)
  show n1: "\<bar>real_of_int (nr config) - c * 40\<bar> \<le> 1/2 + 104 / 2 ^ 54"
    unfolding r using Math_round_close [of p] a(3) pe
    by (simp only: abs_le_iff) (simp; linarith)
  show n2: "\<bar>real_of_int (nf config) - (- 80 + c * 40)\<bar> \<le> 1/2 + 232 / 2 ^ 54"
    unfolding r using Math_round_close [of s] a(3) pe se
    by (simp only: abs_le_iff) (simp; linarith)
  have "\<bar>real_of_int (nr config)\<bar> < 42"
    using n1 assms unfolding c_def by (simp only: abs_le_iff abs_less_iff) (simp; linarith)
  moreover have "\<bar>real_of_int (nf config)\<bar> < 82"
    using n2 assms unfolding c_def by (simp only: abs_le_iff abs_less_iff) (simp; linarith)
  ultimately show "\<bar>nr config\<bar> \<le> 41" "\<bar>nf config\<bar> \<le> 81" by linarith+
qed

lemma deesser_close:
  assumes "0 \<le> deesserAmount config" and "deesserAmount config \<le> 1"
    and "4000 \<le> deesserFreq config" and "deesserFreq config \<le> 8000"
  shows "\<bar>binary64 (deesserAmount config) - deesserAmount config\<bar> \<le> 1 / 2 ^ 54"
    and "0 \<le> binary64 (deesserAmount config)" and "binary64 (deesserAmount config) \<le> 1"
    and "\<bar>binary64 (binary64 (deesserFreq config) / 22050) - deesserFreq config / 22050\<bar>
           \<le> 2 / 2 ^ 54"
    and "0 \<le> binary64 (binary64 (deesserFreq config) / 22050)"
    and "binary64 (binary64 (deesserFreq config) / 22050) \<le> 1"
proof -
  show "\<bar>binary64 (deesserAmount config) - deesserAmount config\<bar> \<le> 1 / 2 ^ 54"
    "0 \<le> binary64 (deesserAmount config)" "binary64 (deesserAmount config) \<le> 1"
    using binary64_unit [OF assms(1,2)] by simp_all
  define f where "f = deesserFreq config"
  define a where "a = binary64 f"
  define q where "q = binary64 (a / 22050)"
  have a: "4000 \<le> a" "a \<le> 8000"
    using binary64_between [of 4000 f 8000] assms(3,4) by (simp_all add: a_def f_def)
  have ae: "\<bar>a - f\<bar> \<le> 2 ^ 13 / 2 ^ 54"
    unfolding a_def using assms(3,4) by (intro binary64_error_pow) (simp add: f_def)
  have d: "0 \<le> a / 22050" "a / 22050 \<le> 1" using a by simp_all
  note q = binary64_unit [OF d, folded q_def]
  show "0 \<le> binary64 (binary64 (deesserFreq config) / 22050)"
    "binary64 (binary64 (deesserFreq config) / 22050) \<le> 1"
    using q(1,2) by (simp_all add: q_def a_def f_def)
  have "\<bar>q - f / 22050\<bar> \<le> 2 / 2 ^ 54"
    using q(3) ae by (simp only: abs_le_iff) (simp; linarith)
  then show "\<bar>binary64 (binary64 (deesserFreq config) / 22050) - deesserFreq config / 22050\<bar>
      \<le> 2 / 2 ^ 54"
    by (simp add: q_def a_def f_def)
qed

text \<open>
  C8, as the code has it. For settings inside the ranges of the sliders, every derived
  number of the command text is written at a fixed precision: the ratio, the attack and
  the makeup of the compressor with one decimal place and its release with none, the
  intensity of the de-esser with two and its frequency with three decimal places, and
  \<open>nr\<close> and \<open>nf\<close> as integers. The number written is the computed double rounded to
  that precision, and the computed double is within \<open>10^-13\<close> of the exact formula.
\<close>

theorem written_precision:
  assumes "0 \<le> compressionAmount config" and "compressionAmount config \<le> 1"
    and "0 \<le> noiseReduction config" and "noiseReduction config \<le> 1"
    and "0 \<le> deesserAmount config" and "deesserAmount config \<le> 1"
    and "4000 \<le> deesserFreq config" and "deesserFreq config \<le> 8000"
  shows "compressor ns config =
           ''acompressor=threshold=-20dB:ratio='' @ toFixed ns 1 (ratio64 config) @
           '':attack='' @ toFixed ns 1 (attack64 config) @
           '':release='' @ toFixed ns 0 (release64 config) @
           '':makeup='' @ toFixed ns 1 (makeup64 config) \<and>
         roundedTo 1 (ratio64 config) (toFixed ns 1 (ratio64 config)) \<and>
         roundedTo 1 (attack64 config) (toFixed ns 1 (attack64 config)) \<and>
         roundedTo 0 (release64 config) (toFixed ns 0 (release64 config)) \<and>
         roundedTo 1 (makeup64 config) (toFixed ns 1 (makeup64 config)) \<and>
         \<bar>ratio64 config - (2 + compressionAmount config * 3)\<bar> \<le> 1 / 10 ^ 13 \<and>
         \<bar>attack64 config - (20 - compressionAmount config * 18)\<bar> \<le> 1 / 10 ^ 13 \<and>
         \<bar>release64 config - (250 - compressionAmount config * 200)\<bar> \<le> 1 / 10 ^ 13 \<and>
         \<bar>makeup64 config - (2 + compressionAmount config * 2)\<bar> \<le> 1 / 10 ^ 13 \<and>
         deesser ns config =
           ''deesser=i='' @ toFixed ns 2 (binary64 (deesserAmount config)) @
           '':m=0.5:f='' @ toFixed ns 3 (binary64 (binary64 (deesserFreq config) / 22050)) @
           '':s=o'' \<and>
         roundedTo 2 (binary64 (deesserAmount config))
           (toFixed ns 2 (binary64 (deesserAmount config))) \<and>
         roundedTo 3 (binary64 (binary64 (deesserFreq config) / 22050))
           (toFixed ns 3 (binary64 (binary64 (deesserFreq config) / 22050))) \<and>
         \<bar>binary64 (deesserAmount config) - deesserAmount config\<bar> \<le> 1 / 10 ^ 13 \<and>
         \<bar>binary64 (binary64 (deesserFreq config) / 22050) - deesserFreq config / 22050\<bar>
           \<le> 1 / 10 ^ 13 \<and>
         afftdn ns config =
           ''afftdn=nr='' @ int_string (nr config) @ '':nf='' @ int_string (nf config) @
           '':tn=1'' \<and>
         \<bar>real_of_int (nr config) - noiseReduction config * 40\<bar> \<le> 1/2 + 1 / 10 ^ 13 \<and>
         \<bar>real_of_int (nf config) - (- 80 + noiseReduction config * 40)\<bar> \<le> 1/2 + 1 / 10 ^ 13"
proof -
  note c = assms(1,2)
  note ra = ratio64_close [OF c] and at = attack64_close [OF c]
    and re = release64_close [OF c] and ma = makeup64_close [OF c]
    and no = noise_close [OF assms(3,4)] and de = deesser_close [OF assms(5-8)]
  have b: "\<bar>ratio64 config\<bar> < 10 ^ 21" "\<bar>attack64 config\<bar> < 10 ^ 21"
    "\<bar>release64 config\<bar> < 10 ^ 21" "\<bar>makeup64 config\<bar> < 10 ^ 21"
    "\<bar>binary64 (deesserAmount config)\<bar> < 10 ^ 21"
    "\<bar>binary64 (binary64 (deesserFreq config) / 22050)\<bar> < 10 ^ 21"
    using ra(2,3) at(2,3) re(2,3) ma(2,3) de(2,3,5,6) by (simp_all add: abs_if)
  note r = b [THEN toFixed_roundedTo, of _ ns]
  have t: "compressor ns config =
           ''acompressor=threshold=-20dB:ratio='' @ toFixed ns 1 (ratio64 config) @
           '':attack='' @ toFixed ns 1 (attack64 config) @
           '':release='' @ toFixed ns 0 (release64 config) @
           '':makeup='' @ toFixed ns 1 (makeup64 config)"
    "deesser ns config =
           ''deesser=i='' @ toFixed ns 2 (binary64 (deesserAmount config)) @
           '':m=0.5:f='' @ toFixed ns 3 (binary64 (binary64 (deesserFreq config) / 22050)) @
           '':s=o''"
    by (simp_all add: compressor_def deesser_def deesserFreqVal_def)
  have n: "\<bar>nr config\<bar> < 10 ^ 21" "\<bar>nf config\<bar> < 10 ^ 21"
    using no(3,4) by simp_all
  have a: "afftdn ns config =
      ''afftdn=nr='' @ int_string (nr config) @ '':nf='' @ int_string (nf config) @ '':tn=1''"
    by (simp add: afftdn_def numberToString_int [OF n(1)] numberToString_int [OF n(2)])
  have e: "\<bar>ratio64 config - (2 + compressionAmount config * 3)\<bar> \<le> 1 / 10 ^ 13"
    "\<bar>attack64 config - (20 - compressionAmount config * 18)\<bar> \<le> 1 / 10 ^ 13"
    "\<bar>release64 config - (250 - compressionAmount config * 200)\<bar> \<le> 1 / 10 ^ 13"
    "\<bar>makeup64 config - (2 + compressionAmount config * 2)\<bar> \<le> 1 / 10 ^ 13"
    using ra(1) at(1) re(1) ma(1)
    by (simp_all add: ratio_def attack_def release_def makeup_def)
  have f: "\<bar>binary64 (deesserAmount config) - deesserAmount config\<bar> \<le> 1 / 10 ^ 13"
    "\<bar>binary64 (binary64 (deesserFreq config) / 22050) - deesserFreq config / 22050\<bar>
      \<le> 1 / 10 ^ 13"
    using de(1,4) by simp_all
  have g: "\<bar>real_of_int (nr config) - noiseReduction config * 40\<bar> \<le> 1/2 + 1 / 10 ^ 13"
    "\<bar>real_of_int (nf config) - (- 80 + noiseReduction config * 40)\<bar> \<le> 1/2 + 1 / 10 ^ 13"
    using no(1,2) by simp_all
  from t r e f a g show ?thesis by (intro conjI)
qed

lemma roundedTo_eval:
  "roundedTo 1 (4841369599423283 / 2251799813685248) ''2.1''"
  "roundedTo 1 (2688086027586765 / 140737488355328) ''19.1''"
  "roundedTo 0 240 ''240''"
  "roundedTo 1 (4728779608739021 / 2251799813685248) ''2.1''"
  "roundedTo 2 (8962163258467287 / 9007199254740992) ''0.99''"
  "roundedTo 3 (4901877145437275 / 18014398509481984) ''0.272''"
  by (simp_all add: roundedTo_def isFixed_def fixedValue_def intPart_def fracPart_def
      unsigned_def is_digit_def digits_value_def digit_value_def)

theorem written_precision_witness:
  "0 \<le> compressionAmount (DEFAULT_CONFIG\<lparr>deesserAmount := 995/1000, compressionAmount := 5/100\<rparr>) \<and>
   compressionAmount (DEFAULT_CONFIG\<lparr>deesserAmount := 995/1000, compressionAmount := 5/100\<rparr>) \<le> 1 \<and>
   0 \<le> noiseReduction (DEFAULT_CONFIG\<lparr>deesserAmount := 995/1000, compressionAmount := 5/100\<rparr>) \<and>
   noiseReduction (DEFAULT_CONFIG\<lparr>deesserAmount := 995/1000, compressionAmount := 5/100\<rparr>) \<le> 1 \<and>
   0 \<le> deesserAmount (DEFAULT_CONFIG\<lparr>deesserAmount := 995/1000, compressionAmount := 5/100\<rparr>) \<and>
   deesserAmount (DEFAULT_CONFIG\<lparr>deesserAmount := 995/1000, compressionAmount := 5/100\<rparr>) \<le> 1 \<and>
   4000 \<le> deesserFreq (DEFAULT_CONFIG\<lparr>deesserAmount := 995/1000, compressionAmount := 5/100\<rparr>) \<and>
   deesserFreq (DEFAULT_CONFIG\<lparr>deesserAmount := 995/1000, compressionAmount := 5/100\<rparr>) \<le> 8000 \<and>
   compressor (\<lambda>x. ''NaN'') (DEFAULT_CONFIG\<lparr>deesserAmount := 995/1000, compressionAmount := 5/100\<rparr>) =
     ''acompressor=threshold=-20dB:ratio=2.1:attack=19.1:release=240:makeup=2.1'' \<and>
   deesser (\<lambda>x. ''NaN'') (DEFAULT_CONFIG\<lparr>deesserAmount := 995/1000, compressionAmount := 5/100\<rparr>) =
     ''deesser=i=0.99:m=0.5:f=0.272:s=o'' \<and>
   afftdn (\<lambda>x. ''NaN'') (DEFAULT_CONFIG\<lparr>deesserAmount := 995/1000, compressionAmount := 5/100\<rparr>) =
     ''afftdn=nr=8:nf=-72:tn=1'' \<and>
   ratio64 (DEFAULT_CONFIG\<lparr>deesserAmount := 995/1000, compressionAmount := 5/100\<rparr>) =
     4841369599423283 / 2251799813685248 \<and>
   roundedTo 1 (ratio64 (DEFAULT_CONFIG\<lparr>deesserAmount := 995/1000, compressionAmount := 5/100\<rparr>)) ''2.1'' \<and>
   roundedTo 1 (attack64 (DEFAULT_CONFIG\<lparr>deesserAmount := 995/1000, compressionAmount := 5/100\<rparr>)) ''19.1'' \<and>
   roundedTo 0 (release64 (DEFAULT_CONFIG\<lparr>deesserAmount := 995/1000, compressionAmount := 5/100\<rparr>)) ''240'' \<and>
   roundedTo 1 (makeup64 (DEFAULT_CONFIG\<lparr>deesserAmount := 995/1000, compressionAmount := 5/100\<rparr>)) ''2.1'' \<and>
   roundedTo 2 (binary64 (995/1000)) ''0.99'' \<and>
   roundedTo 3 (binary64 (binary64 6000 / 22050)) ''0.272''"
proof -
  define cfg where "cfg = DEFAULT_CONFIG\<lparr>deesserAmount := 995/1000, compressionAmount := 5/100\<rparr>"
  have h: "0 \<le> compressionAmount cfg" "compressionAmount cfg \<le> 1"
    "0 \<le> noiseReduction cfg" "noiseReduction cfg \<le> 1"
    "0 \<le> deesserAmount cfg" "deesserAmount cfg \<le> 1"
    "4000 \<le> deesserFreq cfg" "deesserFreq cfg \<le> 8000"
    by (simp_all add: cfg_def DEFAULT_CONFIG_def)
  have v: "ratio64 cfg = 4841369599423283 / 2251799813685248"
    "attack64 cfg = 2688086027586765 / 140737488355328"
    "release64 cfg = 240"
    "makeup64 cfg = 4728779608739021 / 2251799813685248"
    "binary64 (deesserAmount cfg) = 8962163258467287 / 9007199254740992"
    "binary64 (binary64 (deesserFreq cfg) / 22050) = 4901877145437275 / 18014398509481984"
    "nr cfg = 8" "nf cfg = - 72"
    by (simp_all add: cfg_def DEFAULT_CONFIG_def mapper_defs binary64_values)
  have w: "binary64 (995/1000) = 8962163258467287 / 9007199254740992"
    "binary64 (binary64 6000 / 22050) = 4901877145437275 / 18014398509481984"
    by (simp_all add: binary64_values)
  have s: "toFixed (\<lambda>x. ''NaN'') 1 (4841369599423283 / 2251799813685248) = ''2.1''"
    "toFixed (\<lambda>x. ''NaN'') 1 (2688086027586765 / 140737488355328) = ''19.1''"
    "toFixed (\<lambda>x. ''NaN'') 0 240 = ''240''"
    "toFixed (\<lambda>x. ''NaN'') 1 (4728779608739021 / 2251799813685248) = ''2.1''"
    "toFixed (\<lambda>x. ''NaN'') 2 (8962163258467287 / 9007199254740992) = ''0.99''"
    "toFixed (\<lambda>x. ''NaN'') 3 (4901877145437275 / 18014398509481984) = ''0.272''"
    "int_string 8 = ''8''" "int_string (- 72) = ''-72''"
    by (simp_all add: render_defs)
  note t = written_precision [OF h, of "\<lambda>x. ''NaN''", unfolded v s]
  have c: "compressor (\<lambda>x. ''NaN'') cfg =
     ''acompressor=threshold=-20dB:ratio=2.1:attack=19.1:release=240:makeup=2.1''"
    using t by simp
  have d: "deesser (\<lambda>x. ''NaN'') cfg = ''deesser=i=0.99:m=0.5:f=0.272:s=o''"
    using t by simp
  have a: "afftdn (\<lambda>x. ''NaN'') cfg = ''afftdn=nr=8:nf=-72:tn=1''"
    using t by simp
  have r: "roundedTo 1 (ratio64 cfg) ''2.1''" "roundedTo 1 (attack64 cfg) ''19.1''"
    "roundedTo 0 (release64 cfg) ''240''" "roundedTo 1 (makeup64 cfg) ''2.1''"
    "roundedTo 2 (binary64 (995/1000)) ''0.99''"
    "roundedTo 3 (binary64 (binary64 6000 / 22050)) ''0.272''"
    by (simp_all only: v w roundedTo_eval)
  from h c d a v(1) r show ?thesis unfolding cfg_def by (intro conjI)
qed

text \<open>
  C8 as the specification has it fails on the release: at the default configuration the
  compressor stage writes \<open>release=190\<close>, which is no numeral with one decimal place
  (that would be \<open>190.0\<close>).
\<close>

theorem release_has_no_decimal_place:
  "compressor (\<lambda>x. ''NaN'') DEFAULT_CONFIG =
     ''acompressor=threshold=-20dB:ratio=2.9:attack=14.6:release=190:makeup=2.6'' \<and>
   release64 DEFAULT_CONFIG = 190 \<and>
   toFixed (\<lambda>x. ''NaN'') 0 (release64 DEFAULT_CONFIG) = ''190'' \<and>
   \<not> isFixed 1 ''190'' \<and> toFixed (\<lambda>x. ''NaN'') 1 (release64 DEFAULT_CONFIG) = ''190.0''"
  by (simp add: compressor_def DEFAULT_CONFIG_def mapper_defs binary64_values render_defs
      isFixed_def intPart_def fracPart_def unsigned_def)

section \<open>The analyser's loops\<close>

lemma log10_inverse_power: "log 10 (1 / 10 ^ n) = - real n"
  by (simp add: log_divide log_pow_cancel)

lemma floor_dB: "20 * log 10 (0.00000001::real) = - 160" "20 * log 10 (0.0000001::real) = - 140"
  using log10_inverse_power [of 8] log10_inverse_power [of 7] by simp_all

lemma maxAbs_Cons: "maxAbs (x # xs) p = maxAbs xs (if \<bar>x\<bar> > p then \<bar>x\<bar> else p)"
  by (simp add: maxAbs_def)

lemma maxAbs_Nil [simp]: "maxAbs [] p = p"
  by (simp add: maxAbs_def)

lemma maxAbs_append: "maxAbs (xs @ ys) p = maxAbs ys (maxAbs xs p)"
  by (simp add: maxAbs_def)

lemma sumsq_simps [simp]: "sumsq [] = 0" "sumsq (x # xs) = x * x + sumsq xs"
  "sumsq (xs @ ys) = sumsq xs + sumsq ys"
  by (simp_all add: sumsq_def)

lemma window_loop_eq:
  "window_loop rawData i j (pk, ws, ss, c) =
     (let w = take (windowSize - j) (drop (i + j) rawData)
      in (maxAbs w pk, ws + sumsq w, ss + sumsq w, c + length w))"
proof (induction rawData i j "(pk, ws, ss, c)" arbitrary: pk ws ss c rule: window_loop.induct)
  case (1 rawData i j pk windowSum sumSq count)
  show ?case
  proof (cases "j < windowSize \<and> i + j < length rawData")
    case True
    define v where "v = rawData ! (i + j)"
    define pk' where "pk' = (if \<bar>v\<bar> > pk then \<bar>v\<bar> else pk)"
    have d: "drop (i + j) rawData = v # drop (i + (j + 1)) rawData"
      using True by (simp add: Cons_nth_drop_Suc v_def)
    from True obtain k where k: "windowSize - j = Suc k" "windowSize - Suc j = k"
      by (cases "windowSize - j") auto
    have step: "window_loop rawData i j (pk, windowSum, sumSq, count) =
        window_loop rawData i (j + 1) (pk', windowSum + v * v, sumSq + v * v, count + 1)"
      using True by (subst window_loop.simps) (simp add: Let_def v_def pk'_def)
    have IH: "window_loop rawData i (j + 1) (pk', windowSum + v * v, sumSq + v * v, count + 1) =
        (let w = take (windowSize - (j + 1)) (drop (i + (j + 1)) rawData)
         in (maxAbs w pk', windowSum + v * v + sumsq w, sumSq + v * v + sumsq w,
             count + 1 + length w))"
      unfolding pk'_def v_def by (rule "1.hyps" [OF True refl refl])
    show ?thesis
      unfolding step IH by (simp add: Let_def d k maxAbs_Cons pk'_def)
  next
    case False
    then have e: "take (windowSize - j) (drop (i + j) rawData) = []" by auto
    have stop: "window_loop rawData i j (pk, windowSum, sumSq, count) =
        (pk, windowSum, sumSq, count)"
      by (subst window_loop.simps) (simp only: if_not_P [OF False])
    show ?thesis
      unfolding stop by (simp add: Let_def e)
  qed
qed

lemma windows_Nil [simp]: "windows n [] = []"
  by (simp add: windows.simps)

lemma windows_step: "xs \<noteq> [] \<Longrightarrow> 0 < n \<Longrightarrow> windows n xs = take n xs # windows n (drop n xs)"
  by (subst windows.simps) simp

lemma scan_loop_eq:
  "scan_loop rawData i st =
     \<lparr> sumSquares = sumSquares st + sumsq (drop i rawData),
       peakAmp = maxAbs (drop i rawData) (peakAmp st),
       rmsWindows = rmsWindows st @ map windowRms (windows windowSize (drop i rawData)) \<rparr>"
proof (induction rawData i st rule: scan_loop.induct)
  case (1 rawData i st)
  show ?case
  proof (cases "i < length rawData")
    case True
    define w where "w = take windowSize (drop i rawData)"
    define r where "r = drop (i + windowSize) rawData"
    have ne: "drop i rawData \<noteq> []" using True by simp
    have wl: "0 < length w" using True by (simp add: w_def windowSize_def)
    have r: "r = drop windowSize (drop i rawData)"
      by (simp add: r_def add.commute)
    have split: "drop i rawData = w @ r"
      by (simp only: w_def r append_take_drop_id)
    have wins: "windows windowSize (drop i rawData) = w # windows windowSize r"
      using windows_step [OF ne, of windowSize]
      by (simp add: w_def r windowSize_def)
    have wl': "window_loop rawData i 0 (peakAmp st, 0, sumSquares st, 0) =
        (maxAbs w (peakAmp st), sumsq w, sumSquares st + sumsq w, length w)"
      by (simp add: window_loop_eq w_def Let_def)
    define st' where "st' = \<lparr> sumSquares = sumSquares st + sumsq w,
        peakAmp = maxAbs w (peakAmp st),
        rmsWindows = (if 0 < length w then rmsWindows st @ [sqrt (sumsq w / real (length w))]
                      else rmsWindows st) \<rparr>"
    have step: "scan_loop rawData i st = scan_loop rawData (i + windowSize) st'"
      by (subst scan_loop.simps) (simp only: True if_True wl' prod.case st'_def)
    have IH: "scan_loop rawData (i + windowSize) st' =
        \<lparr> sumSquares = sumSquares st' + sumsq r,
          peakAmp = maxAbs r (peakAmp st'),
          rmsWindows = rmsWindows st' @ map windowRms (windows windowSize r) \<rparr>"
      unfolding st'_def r_def by (rule "1.IH" [OF True wl' [symmetric] refl refl])
    have wins': "windows windowSize (w @ r) = w # windows windowSize r"
      using wins by (simp only: split)
    show ?thesis
      unfolding step IH split wins' using wl
      by (simp add: st'_def maxAbs_append windowRms_def [of w])
  next
    case False
    then show ?thesis by (subst scan_loop.simps) simp
  qed
qed

lemma scan_loop_start:
  "scan_loop rawData 0 \<lparr> sumSquares = 0, peakAmp = 0, rmsWindows = [] \<rparr> =
     \<lparr> sumSquares = sumsq rawData, peakAmp = maxAbs rawData 0,
       rmsWindows = map windowRms (windows windowSize rawData) \<rparr>"
  by (simp add: scan_loop_eq)

lemma runClientAnalysis_eq:
  "runClientAnalysis rawData dur rate fileSize =
     (let sorted = sort (map windowRms (windows windowSize rawData));
          idx = nat \<lfloor>real (length sorted) * 0.1\<rfloor>
      in \<lparr> estLufs = toFixed1 (20 * log 10 (num_or
             (if rawData = [] then None else Some (sqrt (sumsq rawData / real (length rawData))))
             0.00000001)),
           peak = toFixed1 (20 * log 10 (num_or (Some (maxAbs rawData 0)) 0.00000001)),
           noiseFloor = toFixed1 (20 * log 10 (num_or
             (if idx < length sorted then Some (sorted ! idx) else None) 0.0000001)),
           duration = dur, sampleRate = rate, isEst = (fileSize > CHUNK_SIZE) \<rparr>)"
  unfolding runClientAnalysis_def scan_loop_start by (simp add: Let_def)

lemma tenth_index: "nat \<lfloor>real n * 0.1\<rfloor> = n div 10"
proof -
  have "real n * 0.1 = real n / real 10" by simp
  then have "\<lfloor>real n * 0.1\<rfloor> = \<lfloor>real n / real 10\<rfloor>" by simp
  also have "\<dots> = int (n div 10)" by (simp only: floor_divide_of_nat_eq)
  finally show ?thesis by simp
qed

lemma concat_windows: "0 < n \<Longrightarrow> concat (windows n xs) = xs"
proof (induction n xs rule: windows.induct)
  case (1 n xs)
  then show ?case by (subst windows.simps) auto
qed

lemma windows_nonempty: "0 < n \<Longrightarrow> w \<in> set (windows n xs) \<Longrightarrow> w \<noteq> [] \<and> length w \<le> n"
proof (induction n xs rule: windows.induct)
  case (1 n xs)
  from "1.prems"(2) have "xs \<noteq> []" by (auto simp: windows.simps [of n xs])
  with "1.prems" have "w = take n xs \<or> w \<in> set (windows n (drop n xs))"
    by (auto simp: windows.simps [of n xs])
  then show ?case
  proof
    assume "w = take n xs"
    with \<open>xs \<noteq> []\<close> "1.prems"(1) show ?thesis by auto
  next
    assume "w \<in> set (windows n (drop n xs))"
    with "1.IH" \<open>xs \<noteq> []\<close> "1.prems"(1) show ?thesis by auto
  qed
qed

lemma length_windows: "0 < n \<Longrightarrow> length (windows n xs) = (length xs + n - 1) div n"
proof (induction n xs rule: windows.induct)
  case (1 n xs)
  show ?case
  proof (cases "xs = []")
    case True
    then show ?thesis using "1.prems" by simp
  next
    case False
    then have x: "0 < length xs" by simp
    note n = "1.prems"
    have IH: "length (windows n (drop n xs)) = (length (drop n xs) + n - 1) div n"
      using "1.IH" False n by simp
    have "(length xs + n - 1) div n = Suc ((length xs - n + n - 1) div n)"
    proof (cases "n \<le> length xs")
      case True
      then have "length xs + n - 1 = (length xs - n + n - 1) + n" using n by simp
      then show ?thesis using n by (simp only: div_add_self2)
    next
      case False
      with x n have "length xs + n - 1 < 2 * n" "n \<le> length xs + n - 1" by linarith+
      then have "(length xs + n - 1) div n = 1"
        by (metis One_nat_def Suc_1 div_nat_eqI mult.commute nat_mult_1)
      moreover have "(length xs - n + n - 1) div n = 0" using False n by simp
      ultimately show ?thesis by simp
    qed
    with IH False n show ?thesis by (simp add: windows_step)
  qed
qed

lemma sumsq_zeros: "set xs \<subseteq> {0} \<Longrightarrow> sumsq xs = 0"
  by (induction xs) auto

lemma maxAbs_zeros: "set xs \<subseteq> {0} \<Longrightarrow> maxAbs xs 0 = 0"
  by (induction xs) (auto simp: maxAbs_Cons)

lemma windowRms_zeros:
  assumes "set xs \<subseteq> {0}" and "w \<in> set (windows windowSize xs)"
  shows "windowRms w = 0"
proof -
  have "set w \<subseteq> set (concat (windows windowSize xs))" using assms(2) by auto
  then have "set w \<subseteq> {0}" using assms(1) by (simp add: concat_windows windowSize_def)
  then show ?thesis by (simp add: windowRms_def sumsq_zeros)
qed

lemma silent_analysis:
  assumes "set rawData \<subseteq> {0}"
  shows "runClientAnalysis rawData dur rate fileSize =
    \<lparr> estLufs = - 160, peak = - 160, noiseFloor = - 140,
      duration = dur, sampleRate = rate, isEst = (fileSize > CHUNK_SIZE) \<rparr>"
proof -
  define sorted where "sorted = sort (map windowRms (windows windowSize rawData))"
  define idx where "idx = nat \<lfloor>real (length sorted) * 0.1\<rfloor>"
  have "set sorted \<subseteq> {0}"
    using windowRms_zeros [OF assms] by (auto simp: sorted_def)
  then have z: "idx < length sorted \<Longrightarrow> sorted ! idx = 0"
    using nth_mem by fastforce
  have n: "num_or (if idx < length sorted then Some (sorted ! idx) else None) 0.0000001
      = 0.0000001"
    using z by (simp add: num_or_def)
  have r: "num_or (if rawData = [] then None
        else Some (sqrt (sumsq rawData / real (length rawData)))) 0.00000001 = 0.00000001"
    by (simp add: num_or_def sumsq_zeros [OF assms])
  have p: "num_or (Some (maxAbs rawData 0)) 0.00000001 = 0.00000001"
    by (simp add: num_or_def maxAbs_zeros [OF assms])
  have t: "toFixed1 (- 160) = - 160" "toFixed1 (- 140) = - 140"
    by (simp_all add: toFixed1_def)
  show ?thesis
    unfolding runClientAnalysis_eq Let_def sorted_def [symmetric] idx_def [symmetric] n r p floor_dB t ..
qed

lemma log10_2_bounds: "119 / 400 \<le> log 10 2" "log 10 2 < 121 / 400"
proof -
  have e: "log 10 ((2::real) ^ 400) = real 400 * log 10 2"
    by (rule log_nat_power) simp
  have a: "real 119 \<le> log 10 ((2::real) ^ 400)"
    by (rule le_log_of_power) simp_all
  have b: "log 10 (real ((2::nat) ^ 400)) < real 121"
    by (rule log_of_power_less) simp_all
  have c: "real ((2::nat) ^ 400) = (2::real) ^ 400" by simp
  from a b show "119 / 400 \<le> log 10 2" "log 10 2 < 121 / 400"
    unfolding c e by simp_all
qed

lemma half_dB: "toFixed1 (20 * log 10 (1/2)) = - 6"
proof -
  have l: "log 10 (1/2) = - log 10 2" by (simp add: log_divide)
  define y where "y = 20 * log 10 2"
  have y: "119 / 20 \<le> y" "y < 121 / 20" using log10_2_bounds by (simp_all add: y_def)
  then have "\<lfloor>y * 10 + 1/2\<rfloor> = 60" by linarith
  then have "toFixed1 (- y) = - 6" using y by (simp add: toFixed1_def)
  then show ?thesis by (simp add: l y_def)
qed

lemma half_dB_inexact: "20 * log 10 (1/2) \<noteq> - 6"
proof -
  have e: "log 10 ((2::real) ^ 1000) = real 1000 * log 10 2"
    by (rule log_nat_power) simp
  have a: "real 301 \<le> log 10 ((2::real) ^ 1000)"
    by (rule le_log_of_power) simp_all
  have "20 * log 10 (1/2) = - (20 * log 10 2)" by (simp add: log_divide)
  moreover from a have "6 < 20 * log 10 2" unfolding e by simp
  ultimately show ?thesis by simp
qed

lemma runClientAnalysis_half:
  "runClientAnalysis [1/2] dur rate fileSize =
    \<lparr> estLufs = - 6, peak = - 6, noiseFloor = - 6,
      duration = dur, sampleRate = rate, isEst = (fileSize > CHUNK_SIZE) \<rparr>"
proof -
  have w: "windows windowSize [1/2::real] = [[1/2]]"
    by (simp add: windows_step windowSize_def)
  have s: "sqrt (1/4) = 1/2"
    by (simp add: real_sqrt_divide)
  show ?thesis
    unfolding runClientAnalysis_eq w
    by (simp add: Let_def windowRms_def num_or_def maxAbs_Cons s half_dB)
qed

lemma nth_windows:
  "0 < n \<Longrightarrow> i < length (windows n xs) \<Longrightarrow> windows n xs ! i = take n (drop (i * n) xs)"
proof (induction i arbitrary: xs)
  case 0
  then have "xs \<noteq> []" by auto
  with 0 show ?case by (simp add: windows_step)
next
  case (Suc i)
  then have ne: "xs \<noteq> []" by auto
  with Suc.prems have "i < length (windows n (drop n xs))" by (simp add: windows_step)
  from Suc.IH [OF Suc.prems(1) this] ne Suc.prems(1) show ?case
    by (simp add: windows_step add.commute)
qed

lemma windows_map:
  assumes "0 < n"
  shows "windows n xs = map (\<lambda>i. take n (drop (i * n) xs)) [0..<(length xs + n - 1) div n]"
  by (rule nth_equalityI) (simp_all add: length_windows [OF assms] nth_windows [OF assms])

lemma tenth_index': "nat \<lfloor>0.1 * real n\<rfloor> = n div 10"
  using tenth_index [of n] by (simp add: mult.commute)

lemma noise_floor_general:
  assumes "rawData \<noteq> []" and "percentileRms rawData \<noteq> 0"
  shows "nat \<lfloor>0.1 * real (length (windows windowSize rawData))\<rfloor>
           < length (windows windowSize rawData)"
    and "noiseFloor (runClientAnalysis rawData dur rate fileSize) = toFixed1 (spec_noiseFloor rawData)"
proof -
  define ws where "ws = windows windowSize rawData"
  have "ws \<noteq> []" using assms(1) by (simp add: ws_def windows_step windowSize_def)
  then have l: "0 < length ws" by simp
  then show i: "nat \<lfloor>0.1 * real (length ws)\<rfloor> < length ws"
    unfolding tenth_index' by simp
  have e: "real (length ws) * 0.1 = 0.1 * real (length ws)" by simp
  show "noiseFloor (runClientAnalysis rawData dur rate fileSize) = toFixed1 (spec_noiseFloor rawData)"
    using assms(2) i
    unfolding runClientAnalysis_eq spec_noiseFloor_def percentileRms_def ws_def [symmetric]
    by (simp add: Let_def num_or_def e del: of_nat_mult)
qed

lemma percentile_half: "percentileRms [1/2] = 1/2"
proof -
  have w: "windows windowSize [1/2::real] = [[1/2]]"
    by (simp add: windows_step windowSize_def)
  have s: "sqrt (1/4) = 1/2"
    by (simp add: real_sqrt_divide)
  show ?thesis
    unfolding percentileRms_def w by (simp add: windowRms_def s)
qed

section \<open>Sources without samples, and silent buffers\<close>



text \<open>
  C4. On a buffer of \<open>n\<close> zeros \<open>estLufs\<close> and \<open>peak\<close> are -160 dB, but \<open>noiseFloor\<close>
  is -140 dB: its fallback constant is \<open>0.0000001\<close> where the other two have
  \<open>0.00000001\<close>. None of the three is infinite or \<open>NaN\<close>.
\<close>

theorem silent_buffer_levels:
  "runClientAnalysis (replicate n 0) dur rate fileSize =
     \<lparr> estLufs = - 160, peak = - 160, noiseFloor = - 140,
       duration = dur, sampleRate = rate, isEst = (fileSize > CHUNK_SIZE) \<rparr>"
  by (rule silent_analysis) auto

section \<open>The noise floor\<close>

text \<open>
  C5, as the code has it. The windows are the consecutive runs of 4096 samples, the last
  one shorter when the length is no multiple of 4096, each with the root mean square over
  its own length. For a non-empty buffer the index \<open>floor(0.1 * windowCount)\<close> is in
  range, and when the window RMS at that index of the ascending order is not zero,
  \<open>noiseFloor\<close> is \<open>20 log10\<close> of it rounded to one decimal place.
\<close>

theorem noise_floor_is_rounded_percentile:
  assumes "rawData \<noteq> []" and "percentileRms rawData \<noteq> 0"
  shows "windows windowSize rawData =
           map (\<lambda>i. take 4096 (drop (i * 4096) rawData)) [0..<(length rawData + 4095) div 4096] \<and>
         nat \<lfloor>0.1 * real (length (windows windowSize rawData))\<rfloor>
           < length (windows windowSize rawData) \<and>
         noiseFloor (runClientAnalysis rawData dur rate fileSize) = toFixed1 (spec_noiseFloor rawData)"
proof -
  have "windows windowSize rawData =
      map (\<lambda>i. take 4096 (drop (i * 4096) rawData)) [0..<(length rawData + 4095) div 4096]"
    using windows_map [of windowSize rawData] by (simp add: windowSize_def add.commute)
  with noise_floor_general [OF assms] show ?thesis by blast
qed

text \<open>
  A buffer of ten windows: nine full ones, the second very quiet and the others at full
  scale, and a last one of a single sample of 0.1. In ascending order the RMS values are
  0.001, 0.1 and eight times 1, and the index \<open>floor(0.1 * 10)\<close> is 1: the noise floor
  is that of the last, partial window, \<open>20 log10 0.1 = -20\<close>, its RMS taken over its one
  sample.
\<close>

lemma windows_blocks:
  assumes "0 < n"
  shows "windows n (replicate (k * n) a @ xs) = replicate k (replicate n a) @ windows n xs"
proof (induction k)
  case 0
  then show ?case by simp
next
  case (Suc k)
  have e: "replicate (Suc k * n) a @ xs = replicate n a @ (replicate (k * n) a @ xs)"
    by (simp add: replicate_add)
  have ne: "replicate n a @ (replicate (k * n) a @ xs) \<noteq> []" using assms by simp
  show ?case
    unfolding e using windows_step [OF ne assms] Suc.IH by simp
qed

lemma windowRms_block: "0 < n \<Longrightarrow> windowRms (replicate n a) = \<bar>a\<bar>"
proof -
  assume n: "0 < n"
  have "sumsq (replicate n a) = real n * (a * a)"
    by (induction n) (simp_all add: algebra_simps)
  then have "sumsq (replicate n a) / real (length (replicate n a)) = a * a"
    using n by simp
  then show ?thesis by (simp add: windowRms_def)
qed

lemma ten_windows:
  "windows windowSize
     (replicate 4096 1 @ replicate 4096 (1/1000) @ replicate 28672 1 @ [1/10::real]) =
   [replicate 4096 1, replicate 4096 (1/1000)] @ replicate 7 (replicate 4096 1) @ [[1/10]]"
proof -
  have w: "0 < windowSize" "windowSize = 4096" by (simp_all add: windowSize_def)
  have a: "windows windowSize (replicate 4096 x @ xs) = replicate 4096 x # windows windowSize xs"
    for x :: real and xs
    using windows_blocks [OF w(1), of 1 x xs] by (simp add: w(2))
  have b: "windows windowSize (replicate 28672 x @ xs) =
      replicate 7 (replicate 4096 x) @ windows windowSize xs"
    for x :: real and xs
    using windows_blocks [OF w(1), of 7 x xs] by (simp add: w(2))
  have c: "windows windowSize [1/10::real] = [[1/10]]"
    by (simp add: windows_step windowSize_def)
  show ?thesis by (simp only: a b c append_Cons append_Nil)
qed

lemma ten_windows_rms:
  "map windowRms (windows windowSize
     (replicate 4096 1 @ replicate 4096 (1/1000) @ replicate 28672 1 @ [1/10::real])) =
   [1, 1/1000, 1, 1, 1, 1, 1, 1, 1, 1/10]"
proof -
  have r: "windowRms (replicate 4096 (1::real)) = 1"
    "windowRms (replicate 4096 (1/1000::real)) = 1/1000"
    by (simp_all add: windowRms_block)
  have s: "windowRms [1/10] = 1/10"
    using windowRms_block [of 1 "1/10"] by simp
  have "map windowRms ([replicate 4096 1, replicate 4096 (1/1000)] @
      replicate 7 (replicate 4096 1) @ [[1/10]]) =
      [1, 1/1000] @ replicate 7 1 @ [1/10]"
    by (simp only: map_append list.map map_replicate r s)
  also have "\<dots> = [1, 1/1000, 1, 1, 1, 1, 1, 1, 1, 1/10]"
    by (simp add: numeral_eq_Suc)
  finally show ?thesis by (simp only: ten_windows)
qed

lemma ten_windows_percentile:
  "percentileRms
     (replicate 4096 1 @ replicate 4096 (1/1000) @ replicate 28672 1 @ [1/10::real]) = 1/10"
  unfolding percentileRms_def ten_windows_rms
  by (simp add: ten_windows tenth_index')

theorem noise_floor_is_rounded_percentile_witness:
  "replicate 4096 1 @ replicate 4096 (1/1000) @ replicate 28672 1 @ [1/10] \<noteq> ([]::real list) \<and>
   percentileRms
     (replicate 4096 1 @ replicate 4096 (1/1000) @ replicate 28672 1 @ [1/10]) \<noteq> 0 \<and>
   map windowRms (windows windowSize
     (replicate 4096 1 @ replicate 4096 (1/1000) @ replicate 28672 1 @ [1/10])) =
     [1, 1/1000, 1, 1, 1, 1, 1, 1, 1, 1/10] \<and>
   sort [1, 1/1000, 1, 1, 1, 1, 1, 1, 1, 1/10 :: real] ! 1 = 1/10 \<and>
   percentileRms
     (replicate 4096 1 @ replicate 4096 (1/1000) @ replicate 28672 1 @ [1/10]) = 1/10 \<and>
   noiseFloor (runClientAnalysis
     (replicate 4096 1 @ replicate 4096 (1/1000) @ replicate 28672 1 @ [1/10]) 1 44100 0) =
     toFixed1 (spec_noiseFloor
       (replicate 4096 1 @ replicate 4096 (1/1000) @ replicate 28672 1 @ [1/10])) \<and>
   toFixed1 (spec_noiseFloor
     (replicate 4096 1 @ replicate 4096 (1/1000) @ replicate 28672 1 @ [1/10])) = - 20"
proof -
  define x :: "real list" where
    "x = replicate 4096 1 @ replicate 4096 (1/1000) @ replicate 28672 1 @ [1/10]"
  have h: "x \<noteq> []" "percentileRms x \<noteq> 0"
    by (simp_all add: x_def ten_windows_percentile)
  have r: "map windowRms (windows windowSize x) = [1, 1/1000, 1, 1, 1, 1, 1, 1, 1, 1/10]"
    unfolding x_def by (rule ten_windows_rms)
  have s: "sort [1, 1/1000, 1, 1, 1, 1, 1, 1, 1, 1/10 :: real] ! 1 = 1/10"
    by simp
  have p: "percentileRms x = 1/10"
    unfolding x_def by (rule ten_windows_percentile)
  have "log 10 (1/10 :: real) = - 1"
    using log10_inverse_power [of 1] by simp
  then have t: "toFixed1 (spec_noiseFloor x) = - 20"
    by (simp add: spec_noiseFloor_def p toFixed1_def)
  from noise_floor_is_rounded_percentile [OF h, of 1 44100 0]
  have n: "noiseFloor (runClientAnalysis x 1 44100 0) = toFixed1 (spec_noiseFloor x)"
    by blast
  from h r s p n t show ?thesis unfolding x_def by (intro conjI)
qed

text \<open>
  C5 as the specification has it fails: for the one-sample buffer \<open>[0.5]\<close> the noise floor
  is -6, the value of \<open>20 log10 0.5 = -6.0206...\<close> rounded to one decimal place.
\<close>

theorem noise_floor_is_rounded:
  "noiseFloor (runClientAnalysis [1/2] 1 44100 0) = - 6 \<and>
   noiseFloor (runClientAnalysis [1/2] 1 44100 0) \<noteq> spec_noiseFloor [1/2]"
  using half_dB_inexact by (simp add: runClientAnalysis_half spec_noiseFloor_def percentile_half)

end
